theory Spec2Isabelle
  imports Main
begin

section \<open>GPU filter channels: the data model of \<^verbatim>\<open>src/utils/gpu-filter-utils.js\<close>\<close>

text \<open>
  A filter is a JavaScript object. The fields the module reads are kept under their
  source names (\<open>id\<close>, \<open>value\<close> and \<open>name\<close> carry a suffix, since the bare words are
  taken in Isabelle). Dataset ids and filter ids are strings.

  \<^item> The numbers of the data (\<open>domain\<close>, \<open>value\<close>, the values of the rows) have the type
    \<open>'n\<close>, a type parameter. The builder uses its \<open>0\<close>, its subtraction and
    \<^verbatim>\<open>Number.MIN_SAFE_INTEGER\<close> through the type classes \<open>zero\<close>, \<open>minus\<close>, \<open>plus\<close>,
    \<open>uminus\<close> and \<open>power\<close>, which fix the operations and no law about them. A theorem
    about \<open>'n\<close> therefore holds whatever the subtraction computes; JavaScript's
    IEEE doubles with their rounding, \<^verbatim>\<open>NaN\<close> and infinities are one such type. The
    concrete examples use \<open>int\<close>, with small integers, on which double arithmetic is
    exact.
  \<^item> \<open>gpuChannel\<close> may be missing (the source writes \<^verbatim>\<open>filter.gpuChannel || []\<close>), so it
    is an option. Its entries are JavaScript array slots: a finite number
    (\<open>Chan c\<close>), a value for which \<^verbatim>\<open>Number.isFinite\<close> is false such as
    \<^verbatim>\<open>undefined\<close> or \<^verbatim>\<open>null\<close> (\<open>Unset\<close>), or a hole of a sparse array (\<open>Hole\<close>), which
    an assignment past the end of the array leaves behind. Reading a hole gives
    \<^verbatim>\<open>undefined\<close>, but \<^verbatim>\<open>Array.prototype.every\<close> skips holes, so the two are kept apart.
  \<^item> \<open>domain\<close> and \<open>value_f\<close> are two-element arrays \<^verbatim>\<open>[min, max]\<close>, \<^verbatim>\<open>[low, high]\<close>.
  \<^item> \<open>mappedValue\<close> is optional; a row value is \<open>None\<close> when it is \<^verbatim>\<open>null\<close> or
    \<^verbatim>\<open>undefined\<close>.
\<close>

datatype chan = Hole | Unset | Chan int

record 'n gfilter =
  id_f :: string
  dataId :: "string list"
  gpu :: bool
  gpuChannel :: "chan list option"
  domain :: "'n \<times> 'n"
  value_f :: "'n \<times> 'n"
  fieldIdx :: nat
  mappedValue :: "'n option list option"
  name_f :: "string list"

subsection \<open>JavaScript array primitives\<close>

text \<open>\<^verbatim>\<open>xs.indexOf(x)\<close>: the first position of \<open>x\<close>; \<open>None\<close> stands for \<open>-1\<close>.\<close>

fun indexOf :: "'a list \<Rightarrow> 'a \<Rightarrow> nat option" where
  "indexOf [] x = None"
| "indexOf (y # ys) x =
     (if y = x then Some 0 else (case indexOf ys x of None \<Rightarrow> None | Some i \<Rightarrow> Some (Suc i)))"

text \<open>
  \<^verbatim>\<open>g[i]\<close> on a channel array, seen through \<^verbatim>\<open>Number.isFinite\<close> and \<^verbatim>\<open>===\<close> against a
  finite number: \<open>Some c\<close> for a finite number, \<open>None\<close> for everything else (a hole, an
  index past the end, \<^verbatim>\<open>undefined\<close>, \<^verbatim>\<open>null\<close>).
\<close>

definition readChan :: "chan list \<Rightarrow> nat \<Rightarrow> int option" where
  "readChan g i =
     (if i < length g then (case g ! i of Chan c \<Rightarrow> Some c | Unset \<Rightarrow> None | Hole \<Rightarrow> None)
      else None)"

text \<open>\<^verbatim>\<open>g[i] = c\<close>: JavaScript extends the array, leaving holes, when \<open>i\<close> is past the end.\<close>

definition writeChan :: "chan list \<Rightarrow> nat \<Rightarrow> chan \<Rightarrow> chan list" where
  "writeChan g i c =
     (if i < length g then g[i := c] else g @ replicate (i - length g) Hole @ [c])"

text \<open>
  The callback of \<^verbatim>\<open>gpuChannel.every(Number.isFinite)\<close>, as \<^verbatim>\<open>every\<close> applies it: a hole
  is never visited, so it passes.
\<close>

fun everyFinite :: "chan \<Rightarrow> bool" where
  "everyFinite Hole = True"
| "everyFinite Unset = False"
| "everyFinite (Chan c) = True"

text \<open>
  Modelled from the spec: \<^verbatim>\<open>arrayfy\<close> is imported from \<^verbatim>\<open>./utils\<close>, which is not among
  the sources. It turns a missing value into an empty array and leaves an array as it
  is. (\<open>dataId\<close> is always an array, so \<^verbatim>\<open>arrayfy(f.dataId)\<close> is \<open>dataId f\<close>.)
\<close>

definition arrayfy :: "'a list option \<Rightarrow> 'a list" where
  "arrayfy x = (case x of None \<Rightarrow> [] | Some xs \<Rightarrow> xs)"

text \<open>
  Modelled from the spec: \<^verbatim>\<open>set\<close> is imported from \<^verbatim>\<open>./utils\<close>, which is not among the
  sources. It is the immutable setter: \<^verbatim>\<open>set(['gpu'], false, f)\<close> returns a copy of \<open>f\<close>
  whose \<open>gpu\<close> is false and leaves \<open>f\<close> itself alone; \<^verbatim>\<open>set([index], f, accu)\<close> returns a
  copy of the array \<open>accu\<close> with \<open>f\<close> at \<open>index\<close>.
\<close>

definition set_gpu :: "bool \<Rightarrow> 'n gfilter \<Rightarrow> 'n gfilter" where
  "set_gpu b f = f\<lparr>gpu := b\<rparr>"

definition set_index :: "nat \<Rightarrow> 'a \<Rightarrow> 'a list \<Rightarrow> 'a list" where
  "set_index i x xs = xs[i := x]"

section \<open>The channel conflict check\<close>

text \<open>
  \<^verbatim>\<open>findGpuChannel\<close> (lines 73 to 81) is a closure over the filter being placed (\<open>flt\<close>) and the
  dataset id \<open>d\<close> of the current position; \<open>channel\<close> is the candidate. The allocator
  uses it as \<^verbatim>\<open>filters.find(findGpuChannel(channel))\<close>, whose result is truthy exactly
  when some element satisfies the predicate.
\<close>

definition findGpuChannel :: "'n gfilter \<Rightarrow> string \<Rightarrow> int \<Rightarrow> 'n gfilter \<Rightarrow> bool" where
  "findGpuChannel flt d channel f =
     (case indexOf (dataId f) d of
        None \<Rightarrow> False
      | Some dataIdx \<Rightarrow>
          id_f f \<noteq> id_f flt \<and> gpu f \<and>
          readChan (arrayfy (gpuChannel f)) dataIdx = Some channel)"

definition channelTaken :: "'n gfilter list \<Rightarrow> 'n gfilter \<Rightarrow> string \<Rightarrow> int \<Rightarrow> bool" where
  "channelTaken filters flt d channel =
     (find (findGpuChannel flt d channel) filters \<noteq> None)"

section \<open>The channel allocator\<close>

text \<open>
  The \<^verbatim>\<open>while\<close> loop of lines 91 to 99: the first \<open>i\<close> from the start index up to
  \<open>MAX_GPU_FILTERS\<close> that no other filter holds for dataset \<open>d\<close>, or \<open>None\<close> when the loop
  runs out. \<open>MAX_GPU_FILTERS\<close> is imported from \<^verbatim>\<open>constants/default-settings\<close>, which is
  not among the sources; it is the parameter \<open>maxGpu\<close> of every function that reads it.
\<close>

function scanChannels :: "nat \<Rightarrow> 'n gfilter list \<Rightarrow> 'n gfilter \<Rightarrow> string \<Rightarrow> nat \<Rightarrow> nat option" where
  "scanChannels maxGpu filters flt d i =
     (if i < maxGpu then
        (if \<not> channelTaken filters flt d (int i) then Some i
         else scanChannels maxGpu filters flt d (Suc i))
      else None)"
  by pat_completeness auto
termination
  by (relation "measure (\<lambda>(maxGpu, filters, flt, d, i). maxGpu - i)") auto

declare scanChannels.simps [simp del]

text \<open>
  The callback of \<^verbatim>\<open>filter.dataId.forEach\<close> (lines 72 to 100) at position \<open>datasetIdx\<close>,
  as a function from the channel array before to the channel array after: a finite
  entry no other filter holds is kept; otherwise the scan writes the first free index,
  and leaves the array as it is when there is none.
\<close>

definition assignDataset ::
  "nat \<Rightarrow> 'n gfilter list \<Rightarrow> 'n gfilter \<Rightarrow> nat \<times> string \<Rightarrow> chan list \<Rightarrow> chan list" where
  "assignDataset maxGpu filters flt p gpuCh =
     (case p of (datasetIdx, d) \<Rightarrow>
        (if (case readChan gpuCh datasetIdx of
               None \<Rightarrow> False
             | Some c \<Rightarrow> \<not> channelTaken filters flt d c)
         then gpuCh
         else (case scanChannels maxGpu filters flt d 0 of
                 Some i \<Rightarrow> writeChan gpuCh datasetIdx (Chan (int i))
               | None \<Rightarrow> gpuCh)))"

definition assignPositions :: "nat \<Rightarrow> 'n gfilter list \<Rightarrow> 'n gfilter \<Rightarrow> chan list" where
  "assignPositions maxGpu filters flt =
     fold (assignDataset maxGpu filters flt) (enumerate 0 (dataId flt))
       (arrayfy (gpuChannel flt))"

text \<open>
  \<^verbatim>\<open>assignGpuChannel\<close> (lines 64 to 115). The local \<^verbatim>\<open>gpuChannel\<close> is the filter's own
  array when it has one, and the loop writes into it in place. So the object spread
  \<^verbatim>\<open>{...filter, gpu: false}\<close> of the failure branch copies a \<open>gpuChannel\<close> field that
  already holds every write of the loop; only a filter that came without the field
  leaves without it. The arrays of the other filters are not written: each filter is
  taken to own its array. The filter itself may be an element of \<open>filters\<close>; the
  conflict check skips it by its id.
\<close>

definition assignGpuChannel :: "nat \<Rightarrow> 'n gfilter \<Rightarrow> 'n gfilter list \<Rightarrow> 'n gfilter" where
  "assignGpuChannel maxGpu flt filters =
     (if \<not> gpu flt then flt
      else
        (let gpuCh = assignPositions maxGpu filters flt in
          if gpuCh = [] \<or> \<not> list_all everyFinite gpuCh
          then flt\<lparr>gpu := False,
                   gpuChannel := (case gpuChannel flt of None \<Rightarrow> None | Some old \<Rightarrow> Some gpuCh)\<rparr>
          else flt\<lparr>gpuChannel := Some gpuCh\<rparr>))"

text \<open>
  \<^verbatim>\<open>assignGpuChannels\<close> (lines 46 to 58): \<^verbatim>\<open>reduce\<close> over the indices of \<open>allFilters\<close>,
  starting from \<open>allFilters\<close> itself; \<open>f\<close> is the element of the original array.
\<close>

definition assignStep :: "nat \<Rightarrow> 'n gfilter list \<Rightarrow> nat \<Rightarrow> 'n gfilter list \<Rightarrow> 'n gfilter list" where
  "assignStep maxGpu allFilters index accu =
     (let f = allFilters ! index in
       if gpu f then set_index index (assignGpuChannel maxGpu f accu) accu else accu)"

definition assignGpuChannels :: "nat \<Rightarrow> 'n gfilter list \<Rightarrow> 'n gfilter list" where
  "assignGpuChannels maxGpu allFilters =
     fold (assignStep maxGpu allFilters) [0..<length allFilters] allFilters"

section \<open>Admission: the single-filter check and the capacity enforcer\<close>

text \<open>
  \<^verbatim>\<open>setFilterGpuMode\<close> (lines 29 to 44). The \<^verbatim>\<open>return\<close> of line 39 is inside the callback
  of \<^verbatim>\<open>forEach\<close>: it ends that call of the callback, and \<^verbatim>\<open>forEach\<close> drops what its
  callback returns. \<open>setFilterGpuMode_callback\<close> is the callback, with \<open>None\<close> for
  \<^verbatim>\<open>undefined\<close>.
\<close>

definition setFilterGpuMode_callback :: "nat \<Rightarrow> 'n gfilter \<Rightarrow> 'n gfilter list \<Rightarrow> string \<Rightarrow> 'n gfilter option" where
  "setFilterGpuMode_callback maxGpu flt filters d =
     (let gpuFilters = filter (\<lambda>f. d \<in> set (dataId f) \<and> gpu f) filters in
       if gpu flt \<and> length gpuFilters = maxGpu then Some (set_gpu False flt) else None)"

definition setFilterGpuMode :: "nat \<Rightarrow> 'n gfilter \<Rightarrow> 'n gfilter list \<Rightarrow> 'n gfilter" where
  "setFilterGpuMode maxGpu flt filters =
     (let dropped = map (setFilterGpuMode_callback maxGpu flt filters) (dataId flt) in flt)"

text \<open>
  \<^verbatim>\<open>resetFilterGpuMode\<close> (lines 122 to 145). \<open>gpuPerDataset\<close> is the object of counters,
  shared by all calls of the \<^verbatim>\<open>map\<close> callback; the inner \<^verbatim>\<open>forEach\<close> updates it and the
  local flag \<open>gpu\<close>.

  The object is created by \<^verbatim>\<open>{}\<close>, so it inherits from \<^verbatim>\<open>Object.prototype\<close>, and
  \<^verbatim>\<open>gpuPerDataset[dataId]\<close> reads through the prototype chain: for a dataset id that is
  the name of a property of \<^verbatim>\<open>Object.prototype\<close> the first read is a function (for
  \<^verbatim>\<open>__proto__\<close>, the prototype object), not \<^verbatim>\<open>undefined\<close>. A value stored in the object
  is therefore a number (\<open>Num\<close>) or something that is not a number (\<open>NotNumber\<close>): an
  inherited function or object, or the string that \<^verbatim>\<open>count + 1\<close> makes of it. Such a
  value is truthy and is never \<^verbatim>\<open>===\<close> to a number.
\<close>

datatype counter = Num nat | NotNumber

text \<open>The names of the properties of \<^verbatim>\<open>Object.prototype\<close> (ECMAScript, with Annex B).\<close>

definition objectPrototypeKeys :: "string list" where
  "objectPrototypeKeys =
     [''constructor'', ''hasOwnProperty'', ''isPrototypeOf'', ''propertyIsEnumerable'',
      ''toLocaleString'', ''toString'', ''valueOf'', ''__proto__'', ''__defineGetter__'',
      ''__defineSetter__'', ''__lookupGetter__'', ''__lookupSetter__'']"

text \<open>
  \<^verbatim>\<open>obj[key]\<close> on an object created by \<^verbatim>\<open>{}\<close> with the own properties \<open>own\<close>: the own
  property when there is one, else the inherited one, else \<^verbatim>\<open>undefined\<close> (\<open>None\<close>).
\<close>

definition readCounter :: "(string \<rightharpoonup> counter) \<Rightarrow> string \<Rightarrow> counter option" where
  "readCounter own key =
     (case own key of
        Some v \<Rightarrow> Some v
      | None \<Rightarrow> if key \<in> set objectPrototypeKeys then Some NotNumber else None)"

text \<open>
  \<^verbatim>\<open>obj[key] = v\<close>: an own property is created or replaced, except for \<^verbatim>\<open>__proto__\<close>,
  whose setter ignores a value that is neither an object nor \<^verbatim>\<open>null\<close> (the loop only
  stores numbers and strings).
\<close>

definition writeCounter :: "(string \<rightharpoonup> counter) \<Rightarrow> string \<Rightarrow> counter \<Rightarrow> (string \<rightharpoonup> counter)" where
  "writeCounter own key v = (if key = ''__proto__'' then own else own(key \<mapsto> v))"

text \<open>
  The callback of the inner \<^verbatim>\<open>forEach\<close> (lines 128 to 136).
  \<^verbatim>\<open>count ? count + 1 : 1\<close> is 1 when the counter is missing or 0, the next number for a
  number, and a string for anything else.
\<close>

definition resetDataset ::
  "nat \<Rightarrow> string \<Rightarrow> bool \<times> (string \<rightharpoonup> counter) \<Rightarrow> bool \<times> (string \<rightharpoonup> counter)" where
  "resetDataset maxGpu d st =
     (case st of (gpuFlag, gpuPerDataset) \<Rightarrow>
        (let count = readCounter gpuPerDataset d in
          if count = Some (Num maxGpu) then (False, gpuPerDataset)
          else (gpuFlag,
                writeCounter gpuPerDataset d
                  (case count of
                     None \<Rightarrow> Num 1
                   | Some (Num c) \<Rightarrow> if c = 0 then Num 1 else Num (c + 1)
                   | Some NotNumber \<Rightarrow> NotNumber))))"

fun resetLoop :: "nat \<Rightarrow> (string \<rightharpoonup> counter) \<Rightarrow> 'n gfilter list \<Rightarrow> 'n gfilter list" where
  "resetLoop maxGpu gpuPerDataset [] = []"
| "resetLoop maxGpu gpuPerDataset (f # fs) =
     (if gpu f then
        (case fold (resetDataset maxGpu) (dataId f) (True, gpuPerDataset) of
           (gpuFlag, counts) \<Rightarrow>
             (if \<not> gpuFlag then set_gpu False f else f) # resetLoop maxGpu counts fs)
      else f # resetLoop maxGpu gpuPerDataset fs)"

definition resetFilterGpuMode :: "nat \<Rightarrow> 'n gfilter list \<Rightarrow> 'n gfilter list" where
  "resetFilterGpuMode maxGpu filters = resetLoop maxGpu Map.empty filters"


section \<open>The uniform data builder\<close>

text \<open>
  The JavaScript errors the builder can raise. Line 152 raises a \<^verbatim>\<open>RangeError\<close> when
  \<^verbatim>\<open>new Array(MAX_GPU_FILTERS)\<close> is asked for \<open>2^32\<close> elements or more. Line 200 reads
  \<^verbatim>\<open>f.gpuChannel[...]\<close> with no guard, which raises a \<^verbatim>\<open>TypeError\<close> when a GPU filter of
  the dataset has no \<open>gpuChannel\<close> yet, and line 176 reads \<^verbatim>\<open>getData(d)[...]\<close> with no
  guard, which raises a \<^verbatim>\<open>TypeError\<close> when the reader returns \<^verbatim>\<open>undefined\<close> or \<^verbatim>\<open>null\<close>.
\<close>

datatype error = TypeError | RangeError

text \<open>
  The value of an update trigger: \<^verbatim>\<open>null\<close> for an empty channel, otherwise
  \<^verbatim>\<open>filter.name[...]\<close>, which is \<^verbatim>\<open>undefined\<close> when \<open>name\<close> is too short.
\<close>

datatype trigger = TNull | TUndefined | TName string

text \<open>Reading a plain array: \<open>None\<close> is \<^verbatim>\<open>undefined\<close> (past the end) or a stored \<^verbatim>\<open>null\<close>.\<close>

definition readVal :: "'a option list \<Rightarrow> nat \<Rightarrow> 'a option" where
  "readVal xs i = (if i < length xs then xs ! i else None)"

definition readName :: "string list \<Rightarrow> nat \<Rightarrow> trigger" where
  "readName xs i = (if i < length xs then TName (xs ! i) else TUndefined)"

text \<open>
  The decimal digits of a number, for the template string \<^verbatim>\<open>`gpuFilter_${i}`\<close> (an
  integer below \<open>10^21\<close> is printed in plain decimal notation).
\<close>

definition digit :: "nat \<Rightarrow> char" where
  "digit n = ''0123456789'' ! (n mod 10)"

function string_of_nat :: "nat \<Rightarrow> string" where
  "string_of_nat n = (if n < 10 then [digit n] else string_of_nat (n div 10) @ [digit n])"
  by pat_completeness auto
termination
  by (relation "measure (\<lambda>n. n)") auto

declare string_of_nat.simps [simp del]

definition triggerKey :: "nat \<Rightarrow> string" where
  "triggerKey i = ''gpuFilter_'' @ string_of_nat i"

text \<open>
  \<^verbatim>\<open>Number.MIN_SAFE_INTEGER\<close>, that is \<open>-(2^53 - 1)\<close>, in the number type \<open>'n\<close>. Each step
  of the computation is exact in IEEE double arithmetic.
\<close>

definition MIN_SAFE_INTEGER :: "'n::{plus, minus, uminus, power}" where
  "MIN_SAFE_INTEGER = - ((1 + 1) ^ 53 - 1)"

text \<open>
  Modelled from the spec: \<^verbatim>\<open>notNullorUndefined\<close> is imported from \<^verbatim>\<open>./data-utils\<close>,
  which is not among the sources. It is true of every value but \<^verbatim>\<open>null\<close> and
  \<^verbatim>\<open>undefined\<close>.
\<close>

definition notNullorUndefined :: "'a option \<Rightarrow> bool" where
  "notNullorUndefined v = (v \<noteq> None)"

text \<open>\<^verbatim>\<open>getEmptyFilterRange\<close> (lines 151 to 153).\<close>

definition getEmptyFilterRange :: "nat \<Rightarrow> error + ('n::zero \<times> 'n) list" where
  "getEmptyFilterRange maxGpu =
     (if maxGpu < 2 ^ 32 then Inr (map (\<lambda>d. (0, 0)) (replicate maxGpu (0 :: 'n)))
      else Inl RangeError)"

text \<open>
  The default readers of lines 157 and 158, for a datum \<^verbatim>\<open>{index, data}\<close>; a field is
  \<open>None\<close> when the datum does not have it. The accessor below takes its two readers as
  arguments. A reader returns \<open>None\<close> for \<^verbatim>\<open>undefined\<close> or \<^verbatim>\<open>null\<close>; for the index
  reader \<open>None\<close> also stands for any value that is not an index of an array.
\<close>

record 'n datum =
  index :: "nat option"
  data :: "'n option list option"

definition defaultGetIndex :: "'n datum \<Rightarrow> nat option" where
  "defaultGetIndex d = index d"

definition defaultGetData :: "'n datum \<Rightarrow> 'n option list option" where
  "defaultGetData d = data d"

text \<open>
  The statement \<^verbatim>\<open>const value = ...\<close> of lines 174 to 176. An array is truthy even when
  empty, so \<open>mappedValue\<close> is used whenever it is present; reading it at something that
  is not one of its indices gives \<^verbatim>\<open>undefined\<close>. Without \<open>mappedValue\<close> the row's data is
  indexed, which raises when the reader returned no array.
\<close>

definition rowValue ::
  "('r \<Rightarrow> nat option) \<Rightarrow> ('r \<Rightarrow> 'n option list option) \<Rightarrow> 'r \<Rightarrow> 'n gfilter \<Rightarrow> error + 'n option" where
  "rowValue getIndex getData d flt =
     (case mappedValue flt of
        Some mv \<Rightarrow> Inr (case getIndex d of None \<Rightarrow> None | Some k \<Rightarrow> readVal mv k)
      | None \<Rightarrow>
          (case getData d of
             None \<Rightarrow> Inl TypeError
           | Some rowData \<Rightarrow> Inr (readVal rowData (fieldIdx flt))))"

text \<open>
  The callback of \<^verbatim>\<open>channels.map\<close> in \<^verbatim>\<open>getFilterValueAccessor\<close> (lines 165 to 181); a
  channel is \<open>None\<close> when \<^verbatim>\<open>find\<close> returned \<^verbatim>\<open>undefined\<close>.
\<close>

definition channelValue ::
  "('r \<Rightarrow> nat option) \<Rightarrow> ('r \<Rightarrow> 'n option list option) \<Rightarrow> 'r \<Rightarrow> 'n gfilter option \<Rightarrow>
     error + 'n::{zero, plus, minus, uminus, power}" where
  "channelValue getIndex getData d ch =
     (case ch of
        None \<Rightarrow> Inr 0
      | Some flt \<Rightarrow>
          (case rowValue getIndex getData d flt of
             Inl e \<Rightarrow> Inl e
           | Inr v \<Rightarrow>
               Inr (if notNullorUndefined v
                    then (case v of Some x \<Rightarrow> x - fst (domain flt) | None \<Rightarrow> MIN_SAFE_INTEGER)
                    else MIN_SAFE_INTEGER)))"

text \<open>\<^verbatim>\<open>Array.prototype.map\<close> with a callback that may raise: the first error ends the call.\<close>

fun mapRaising :: "('a \<Rightarrow> error + 'b) \<Rightarrow> 'a list \<Rightarrow> error + 'b list" where
  "mapRaising f [] = Inr []"
| "mapRaising f (x # xs) =
     (case f x of
        Inl e \<Rightarrow> Inl e
      | Inr y \<Rightarrow> (case mapRaising f xs of Inl e \<Rightarrow> Inl e | Inr ys \<Rightarrow> Inr (y # ys)))"

definition getFilterValueAccessor ::
  "'n gfilter option list \<Rightarrow> ('r \<Rightarrow> nat option) \<Rightarrow> ('r \<Rightarrow> 'n option list option) \<Rightarrow> 'r \<Rightarrow>
     error + ('n::{zero, plus, minus, uminus, power}) list" where
  "getFilterValueAccessor channels getIndex getData d =
     mapRaising (channelValue getIndex getData d) channels"

text \<open>
  The \<^verbatim>\<open>filters.find\<close> of lines 197 to 201 for channel \<open>i\<close>. \<^verbatim>\<open>&&\<close> evaluates from the
  left, so the unguarded read of \<open>gpuChannel\<close> happens only for a GPU filter that
  includes the dataset; there it raises when the field is missing.
\<close>

fun findChannelFilter :: "'n gfilter list \<Rightarrow> string \<Rightarrow> int \<Rightarrow> error + 'n gfilter option" where
  "findChannelFilter [] d i = Inr None"
| "findChannelFilter (f # fs) d i =
     (if gpu f then
        (case indexOf (dataId f) d of
           None \<Rightarrow> findChannelFilter fs d i
         | Some k \<Rightarrow>
             (case gpuChannel f of
                None \<Rightarrow> Inl TypeError
              | Some g \<Rightarrow> if readChan g k = Some i then Inr (Some f) else findChannelFilter fs d i))
      else findChannelFilter fs d i)"

text \<open>
  The object that \<open>getGpuFilterProps\<close> returns; \<open>filterValueUpdateTriggers\<close> holds the own
  properties of the \<^verbatim>\<open>triggers\<close> object.
\<close>

record ('r, 'n) gpuFilterProps =
  filterRange :: "('n \<times> 'n) list"
  filterValueUpdateTriggers :: "string \<rightharpoonup> trigger"
  filterValueAccessor ::
    "('r \<Rightarrow> nat option) \<Rightarrow> ('r \<Rightarrow> 'n option list option) \<Rightarrow> 'r \<Rightarrow> error + 'n list"

record 'n builderState =
  ranges :: "('n \<times> 'n) list"
  triggers :: "string \<rightharpoonup> trigger"
  channels :: "'n gfilter option list"

text \<open>The body of the \<^verbatim>\<open>for\<close> loop (lines 203 to 207) for channel \<open>i\<close>, given what \<^verbatim>\<open>find\<close> returned.\<close>

definition builderStep ::
  "string \<Rightarrow> nat \<Rightarrow> 'n gfilter option \<Rightarrow> 'n builderState \<Rightarrow> ('n::{zero, minus}) builderState" where
  "builderStep d i found st =
     st\<lparr>ranges := (ranges st)[i :=
           (case found of
              None \<Rightarrow> (0, 0)
            | Some flt \<Rightarrow> (fst (value_f flt) - fst (domain flt), snd (value_f flt) - fst (domain flt)))],
        triggers := (triggers st)(triggerKey i \<mapsto>
           (case found of
              None \<Rightarrow> TNull
            | Some flt \<Rightarrow>
                (case indexOf (dataId flt) d of
                   None \<Rightarrow> TUndefined
                 | Some k \<Rightarrow> readName (name_f flt) k))),
        channels := channels st @ [found]\<rparr>"

function builderLoop ::
  "nat \<Rightarrow> 'n gfilter list \<Rightarrow> string \<Rightarrow> nat \<Rightarrow> 'n builderState \<Rightarrow>
     error + ('n::{zero, minus}) builderState" where
  "builderLoop maxGpu filters d i st =
     (if i < maxGpu then
        (case findChannelFilter filters d (int i) of
           Inl e \<Rightarrow> Inl e
         | Inr found \<Rightarrow> builderLoop maxGpu filters d (Suc i) (builderStep d i found st))
      else Inr st)"
  by pat_completeness auto
termination
  by (relation "measure (\<lambda>(maxGpu, filters, d, i, st). maxGpu - i)") auto

declare builderLoop.simps [simp del]

text \<open>\<^verbatim>\<open>getGpuFilterProps\<close> (lines 189 to 217).\<close>

definition getGpuFilterProps ::
  "nat \<Rightarrow> 'n gfilter list \<Rightarrow> string \<Rightarrow>
     error + ('r, 'n::{zero, plus, minus, uminus, power}) gpuFilterProps" where
  "getGpuFilterProps maxGpu filters d =
     (case getEmptyFilterRange maxGpu of
        Inl e \<Rightarrow> Inl e
      | Inr filterRange0 \<Rightarrow>
          (case builderLoop maxGpu filters d 0
                  \<lparr>ranges = filterRange0, triggers = Map.empty, channels = []\<rparr> of
             Inl e \<Rightarrow> Inl e
           | Inr st \<Rightarrow>
               Inr \<lparr>filterRange = ranges st,
                    filterValueUpdateTriggers = triggers st,
                    filterValueAccessor = getFilterValueAccessor (channels st)\<rparr>))"


section \<open>Concrete filters for the examples\<close>

text \<open>
  A GPU filter with the given id, datasets and channel array; the fields the allocator
  and the capacity enforcer never read are filled with fixed values.
\<close>

definition mkFilter :: "string \<Rightarrow> string list \<Rightarrow> chan list option \<Rightarrow> int gfilter" where
  "mkFilter i ds ch =
     \<lparr>id_f = i, dataId = ds, gpu = True, gpuChannel = ch, domain = (0, 0),
      value_f = (0, 0), fieldIdx = 0, mappedValue = None, name_f = []\<rparr>"


section \<open>Notions used in the statements\<close>

text \<open>
  The number of filters of a list that have \<open>gpu\<close> set and include dataset \<open>D\<close>: with
  the list \<open>take i filters\<close>, the number of GPU filters before position \<open>i\<close> that touch
  \<open>D\<close>.
\<close>

definition gpuTouching :: "string \<Rightarrow> 'n gfilter list \<Rightarrow> nat" where
  "gpuTouching D fs = length (filter (\<lambda>g. gpu g \<and> D \<in> set (dataId g)) fs)"

text \<open>
  The loop invariant of \<open>resetFilterGpuMode\<close> when no dataset id is inherited from
  \<^verbatim>\<open>Object.prototype\<close>: after the filters \<open>pre\<close>, the object has no property for a
  dataset that no GPU filter touched, and otherwise holds the number of GPU filters
  that touched it, capped at \<open>maxGpu\<close>.
\<close>

definition countsAgree :: "nat \<Rightarrow> (string \<rightharpoonup> counter) \<Rightarrow> 'n gfilter list \<Rightarrow> bool" where
  "countsAgree maxGpu m pre =
     (\<forall>D. m D =
        (if gpuTouching D pre = 0 then None else Some (Num (min (gpuTouching D pre) maxGpu))))"

text \<open>
  Decimal numerals, read from the string: \<open>isDecimalOf ds i\<close> says that \<open>ds\<close> is the
  decimal numeral of \<open>i\<close>: it is not empty, consists of the digits \<open>0\<close> to \<open>9\<close>, has no
  leading zero unless it is \<open>0\<close> itself, and its value is \<open>i\<close>. Each number has exactly
  one such string (\<open>isDecimalOf_unique\<close> below).
\<close>

definition isDigit :: "char \<Rightarrow> bool" where
  "isDigit c = (c \<in> set ''0123456789'')"

definition digitValue :: "char \<Rightarrow> nat" where
  "digitValue c = of_char c - 48"

definition decimalValue :: "string \<Rightarrow> nat" where
  "decimalValue ds = foldl (\<lambda>acc c. 10 * acc + digitValue c) 0 ds"

definition isDecimalOf :: "string \<Rightarrow> nat \<Rightarrow> bool" where
  "isDecimalOf ds i =
     (ds \<noteq> [] \<and> list_all isDigit ds \<and> (ds = ''0'' \<or> hd ds \<noteq> CHR ''0'') \<and> decimalValue ds = i)"

text \<open>
  What \<^verbatim>\<open>find\<close> returns for channel \<open>j\<close> when it returns at all; the entry of \<open>channels\<close>
  that the \<^verbatim>\<open>for\<close> loop pushes for \<open>j\<close>.
\<close>

definition channelAt :: "'n gfilter list \<Rightarrow> string \<Rightarrow> nat \<Rightarrow> 'n gfilter option" where
  "channelAt filters d j =
     (case findChannelFilter filters d (int j) of Inl e \<Rightarrow> None | Inr found \<Rightarrow> found)"

text \<open>
  The two filters of the scenario of section 8 of the specification, before
  allocation. The scenario names \<open>dataId\<close>, \<open>gpu\<close>, \<open>domain\<close> and \<open>value\<close>; the id and the
  remaining fields are arguments.
\<close>

definition scenarioF1 :: "string \<Rightarrow> nat \<Rightarrow> int option list option \<Rightarrow> string list \<Rightarrow> int gfilter" where
  "scenarioF1 i fi mv nm =
     \<lparr>id_f = i, dataId = [''d1''], gpu = True, gpuChannel = None, domain = (0, 100),
      value_f = (10, 20), fieldIdx = fi, mappedValue = mv, name_f = nm\<rparr>"

definition scenarioF2 :: "string \<Rightarrow> nat \<Rightarrow> int option list option \<Rightarrow> string list \<Rightarrow> int gfilter" where
  "scenarioF2 i fi mv nm =
     \<lparr>id_f = i, dataId = [''d1''], gpu = True, gpuChannel = None, domain = (0, 50),
      value_f = (5, 15), fieldIdx = fi, mappedValue = mv, name_f = nm\<rparr>"

section \<open>Theorems\<close>

subsection \<open>Array primitives\<close>

lemma indexOf_None: "indexOf xs x = None \<longleftrightarrow> x \<notin> set xs"
  by (induction xs) (auto split: option.splits)

lemma indexOf_Some:
  "indexOf xs x = Some i \<longleftrightarrow> i < length xs \<and> xs ! i = x \<and> (\<forall>j<i. xs ! j \<noteq> x)"
proof (induction xs arbitrary: i)
  case Nil
  show ?case by simp
next
  case (Cons y ys)
  show ?case
  proof (cases "y = x")
    case True
    then show ?thesis by (cases i) auto
  next
    case False
    show ?thesis
    proof (cases i)
      case 0
      with False show ?thesis by (auto split: option.splits)
    next
      case (Suc k)
      have "(\<forall>j<Suc k. (y # ys) ! j \<noteq> x) \<longleftrightarrow> (\<forall>j<k. ys ! j \<noteq> x)"
        using False by (auto simp: less_Suc_eq_0_disj)
      with False Suc Cons.IH [of k] show ?thesis
        by (auto split: option.splits)
    qed
  qed
qed


subsection \<open>The conflict check\<close>

lemma find_neq_None: "find P xs \<noteq> None \<longleftrightarrow> (\<exists>x\<in>set xs. P x)"
  by (auto simp: find_None_iff)

lemma findGpuChannel_first:
  "findGpuChannel flt d channel f \<longleftrightarrow>
     id_f f \<noteq> id_f flt \<and> gpu f \<and> d \<in> set (dataId f) \<and>
     (\<exists>p<length (dataId f). dataId f ! p = d \<and> (\<forall>q<p. dataId f ! q \<noteq> d) \<and>
        readChan (arrayfy (gpuChannel f)) p = Some channel)"
proof (cases "indexOf (dataId f) d")
  case None
  then have "d \<notin> set (dataId f)" by (simp add: indexOf_None)
  with None show ?thesis by (simp add: findGpuChannel_def)
next
  case (Some k)
  then have k: "k < length (dataId f)" "dataId f ! k = d" "\<forall>q<k. dataId f ! q \<noteq> d"
    by (simp_all add: indexOf_Some)
  have uniq: "p = k" if "p < length (dataId f)" "dataId f ! p = d" "\<forall>q<p. dataId f ! q \<noteq> d" for p
  proof -
    have "\<not> p < k" using that k by auto
    moreover have "\<not> k < p" using that k by auto
    ultimately show ?thesis by simp
  qed
  have mem: "d \<in> set (dataId f)" using k by auto
  show ?thesis
  proof
    assume "findGpuChannel flt d channel f"
    with Some have "id_f f \<noteq> id_f flt" "gpu f" "readChan (arrayfy (gpuChannel f)) k = Some channel"
      by (simp_all add: findGpuChannel_def)
    with k mem show "id_f f \<noteq> id_f flt \<and> gpu f \<and> d \<in> set (dataId f) \<and>
     (\<exists>p<length (dataId f). dataId f ! p = d \<and> (\<forall>q<p. dataId f ! q \<noteq> d) \<and>
        readChan (arrayfy (gpuChannel f)) p = Some channel)" by blast
  next
    assume r: "id_f f \<noteq> id_f flt \<and> gpu f \<and> d \<in> set (dataId f) \<and>
     (\<exists>p<length (dataId f). dataId f ! p = d \<and> (\<forall>q<p. dataId f ! q \<noteq> d) \<and>
        readChan (arrayfy (gpuChannel f)) p = Some channel)"
    then obtain p where p: "p < length (dataId f)" "dataId f ! p = d" "\<forall>q<p. dataId f ! q \<noteq> d"
      "readChan (arrayfy (gpuChannel f)) p = Some channel" by blast
    from uniq [OF p(1-3)] p(4) have "readChan (arrayfy (gpuChannel f)) k = Some channel" by simp
    with r Some show "findGpuChannel flt d channel f" by (simp add: findGpuChannel_def)
  qed
qed

text \<open>
  Claim C7. The conflict check of the allocator is true for a dataset \<open>d\<close>, a candidate
  \<open>channel\<close>, a collection \<open>filters\<close> and the filter \<open>flt\<close> being placed exactly when
  some filter of the collection with another id has \<open>gpu\<close> set, includes \<open>d\<close>, and holds
  \<open>channel\<close> at the position of \<open>d\<close> in its \<open>dataId\<close> (the first position where \<open>d\<close>
  stands). The filter being placed never conflicts with itself, and the filters that
  share its id never produce a conflict.
\<close>

theorem conflict_check_iff:
  "(channelTaken filters flt d channel \<longleftrightarrow>
      (\<exists>f\<in>set filters. id_f f \<noteq> id_f flt \<and> gpu f \<and> d \<in> set (dataId f) \<and>
         (\<exists>p<length (dataId f). dataId f ! p = d \<and> (\<forall>q<p. dataId f ! q \<noteq> d) \<and>
            readChan (arrayfy (gpuChannel f)) p = Some channel)))
   \<and> \<not> findGpuChannel flt d channel flt
   \<and> \<not> channelTaken [f\<leftarrow>filters. id_f f = id_f flt] flt d channel"
proof (intro conjI)
  show "channelTaken filters flt d channel \<longleftrightarrow>
      (\<exists>f\<in>set filters. id_f f \<noteq> id_f flt \<and> gpu f \<and> d \<in> set (dataId f) \<and>
         (\<exists>p<length (dataId f). dataId f ! p = d \<and> (\<forall>q<p. dataId f ! q \<noteq> d) \<and>
            readChan (arrayfy (gpuChannel f)) p = Some channel))"
  proof -
    have "(\<exists>f\<in>set filters. findGpuChannel flt d channel f) \<longleftrightarrow>
      (\<exists>f\<in>set filters. id_f f \<noteq> id_f flt \<and> gpu f \<and> d \<in> set (dataId f) \<and>
         (\<exists>p<length (dataId f). dataId f ! p = d \<and> (\<forall>q<p. dataId f ! q \<noteq> d) \<and>
            readChan (arrayfy (gpuChannel f)) p = Some channel))"
      by (simp only: findGpuChannel_first)
    then show ?thesis
      unfolding channelTaken_def find_neq_None .
  qed
  show "\<not> findGpuChannel flt d channel flt"
    by (simp add: findGpuChannel_def split: option.splits)
  show "\<not> channelTaken [f\<leftarrow>filters. id_f f = id_f flt] flt d channel"
    unfolding channelTaken_def find_neq_None
    by (auto simp: findGpuChannel_def split: option.splits)
qed

theorem conflict_check_iff_witness:
  "channelTaken [mkFilter ''g'' [''e'', ''d''] (Some [Chan 3, Chan 0])] (mkFilter ''f'' [''d''] None) ''d'' 0
   \<and> \<not> channelTaken [mkFilter ''g'' [''e'', ''d''] (Some [Chan 3, Chan 0])] (mkFilter ''f'' [''d''] None) ''d'' 3"
  using conflict_check_iff [of "[mkFilter ''g'' [''e'', ''d''] (Some [Chan 3, Chan 0])]" "mkFilter ''f'' [''d''] None" "''d''" 0]
  conflict_check_iff [of "[mkFilter ''g'' [''e'', ''d''] (Some [Chan 3, Chan 0])]" "mkFilter ''f'' [''d''] None" "''d''" 3]
  by (simp add: mkFilter_def channelTaken_def findGpuChannel_def readChan_def arrayfy_def)


subsection \<open>The capacity enforcer changes nothing but \<open>gpu\<close>\<close>

lemma resetLoop_length: "length (resetLoop maxGpu m fs) = length fs"
  by (induction fs arbitrary: m) (auto split: prod.splits)

lemma resetLoop_frame:
  "i < length fs \<Longrightarrow>
     resetLoop maxGpu m fs ! i = fs ! i \<or>
     (gpu (fs ! i) \<and> resetLoop maxGpu m fs ! i = (fs ! i)\<lparr>gpu := False\<rparr>)"
proof (induction fs arbitrary: m i)
  case Nil
  then show ?case by simp
next
  case (Cons f fs)
  show ?case
  proof (cases i)
    case 0
    then show ?thesis by (auto simp: set_gpu_def split: prod.splits)
  next
    case (Suc k)
    with Cons.prems have "k < length fs" by simp
    from Cons.IH [OF this] Suc show ?thesis
      by (auto split: prod.splits)
  qed
qed

text \<open>
  Claim C10. \<open>resetFilterGpuMode\<close> returns a collection of the same length and order;
  each element is the original filter, or the original filter with \<open>gpu\<close> set to false
  and every other field as it was. An element that differs had \<open>gpu\<close> true, so \<open>gpu\<close>
  never goes from false to true.
\<close>

theorem reset_frame:
  "length (resetFilterGpuMode maxGpu filters) = length filters \<and>
   (\<forall>i<length filters.
      resetFilterGpuMode maxGpu filters ! i = filters ! i \<or>
      (gpu (filters ! i) \<and> resetFilterGpuMode maxGpu filters ! i = (filters ! i)\<lparr>gpu := False\<rparr>))"
proof (intro conjI allI impI)
  show "length (resetFilterGpuMode maxGpu filters) = length filters"
    by (simp add: resetFilterGpuMode_def resetLoop_length)
next
  fix i
  assume "i < length filters"
  then show "resetFilterGpuMode maxGpu filters ! i = filters ! i \<or>
      (gpu (filters ! i) \<and> resetFilterGpuMode maxGpu filters ! i = (filters ! i)\<lparr>gpu := False\<rparr>)"
    unfolding resetFilterGpuMode_def by (rule resetLoop_frame)
qed


theorem reset_frame_witness:
  "length (resetFilterGpuMode 1
      [mkFilter ''a'' [''d1''] None, mkFilter ''b'' [''d2'', ''d1''] (Some [Chan 0]),
       mkFilter ''c'' [''d2''] None]) = 3 \<and>
   resetFilterGpuMode 1
      [mkFilter ''a'' [''d1''] None, mkFilter ''b'' [''d2'', ''d1''] (Some [Chan 0]),
       mkFilter ''c'' [''d2''] None] ! 1 =
     (mkFilter ''b'' [''d2'', ''d1''] (Some [Chan 0]))\<lparr>gpu := False\<rparr>"
  using reset_frame [of 1 "[mkFilter ''a'' [''d1''] None,
      mkFilter ''b'' [''d2'', ''d1''] (Some [Chan 0]), mkFilter ''c'' [''d2''] None]"]
  by (simp add: resetFilterGpuMode_def resetDataset_def readCounter_def writeCounter_def
      objectPrototypeKeys_def set_gpu_def mkFilter_def Let_def)

subsection \<open>The capacity enforcer keeps the first \<open>MAX_GPU_FILTERS\<close> filters of each dataset\<close>

lemma proto_in_keys: "''__proto__'' \<in> set objectPrototypeKeys"
  by (simp add: objectPrototypeKeys_def)

lemma resetDataset_plain:
  assumes "d \<notin> set objectPrototypeKeys"
  shows "resetDataset n d (flag, m) =
     (if m d = Some (Num n) then (False, m)
      else (flag, m(d \<mapsto>
              (case m d of
                 None \<Rightarrow> Num 1
               | Some (Num c) \<Rightarrow> if c = 0 then Num 1 else Num (c + 1)
               | Some NotNumber \<Rightarrow> NotNumber))))"
proof -
  from assms proto_in_keys have "d \<noteq> ''__proto__''" by auto
  moreover from assms have "readCounter m d = m d"
    by (simp add: readCounter_def split: option.splits)
  ultimately show ?thesis
    by (simp add: resetDataset_def writeCounter_def)
qed

lemma fold_resetDataset:
  "distinct ds \<Longrightarrow> set ds \<inter> set objectPrototypeKeys = {} \<Longrightarrow>
   fold (resetDataset n) ds (flag, m) =
     (flag \<and> (\<forall>D\<in>set ds. m D \<noteq> Some (Num n)),
      (\<lambda>D. if D \<in> set ds \<and> m D \<noteq> Some (Num n)
           then Some (case m D of
                        None \<Rightarrow> Num 1
                      | Some (Num c) \<Rightarrow> if c = 0 then Num 1 else Num (c + 1)
                      | Some NotNumber \<Rightarrow> NotNumber)
           else m D))"
proof (induction ds arbitrary: flag m)
  case Nil
  show ?case by simp
next
  case (Cons d ds)
  from Cons.prems have d: "d \<notin> set ds" and ds: "distinct ds"
    and plain: "d \<notin> set objectPrototypeKeys"
    and rest: "set ds \<inter> set objectPrototypeKeys = {}" by auto
  show ?case
  proof (cases "m d = Some (Num n)")
    case True
    then have "fold (resetDataset n) (d # ds) (flag, m) = fold (resetDataset n) ds (False, m)"
      by (simp add: resetDataset_plain [OF plain])
    also have "\<dots> = (False,
      (\<lambda>D. if D \<in> set ds \<and> m D \<noteq> Some (Num n)
           then Some (case m D of
                        None \<Rightarrow> Num 1
                      | Some (Num c) \<Rightarrow> if c = 0 then Num 1 else Num (c + 1)
                      | Some NotNumber \<Rightarrow> NotNumber)
           else m D))"
      using Cons.IH [OF ds rest, of False m] by simp
    finally show ?thesis using True by (auto simp: fun_eq_iff)
  next
    case False
    let ?m' = "m(d \<mapsto> (case m d of
                        None \<Rightarrow> Num 1
                      | Some (Num c) \<Rightarrow> if c = 0 then Num 1 else Num (c + 1)
                      | Some NotNumber \<Rightarrow> NotNumber))"
    from False have "fold (resetDataset n) (d # ds) (flag, m) = fold (resetDataset n) ds (flag, ?m')"
      by (simp add: resetDataset_plain [OF plain])
    also have "\<dots> = (flag \<and> (\<forall>D\<in>set ds. ?m' D \<noteq> Some (Num n)),
      (\<lambda>D. if D \<in> set ds \<and> ?m' D \<noteq> Some (Num n)
           then Some (case ?m' D of
                        None \<Rightarrow> Num 1
                      | Some (Num c) \<Rightarrow> if c = 0 then Num 1 else Num (c + 1)
                      | Some NotNumber \<Rightarrow> NotNumber)
           else ?m' D))"
      by (rule Cons.IH [OF ds rest])
    finally show ?thesis using False d by (auto simp: fun_eq_iff)
  qed
qed

lemma gpuTouching_snoc:
  "gpuTouching D (pre @ [f]) = gpuTouching D pre + (if gpu f \<and> D \<in> set (dataId f) then 1 else 0)"
  by (simp add: gpuTouching_def)

lemma countsAgree_full:
  "countsAgree n m pre \<Longrightarrow> 0 < n \<Longrightarrow> m D = Some (Num n) \<longleftrightarrow> n \<le> gpuTouching D pre"
  by (auto simp: countsAgree_def min_def)

lemma countsAgree_skip: "countsAgree n m pre \<Longrightarrow> \<not> gpu f \<Longrightarrow> countsAgree n m (pre @ [f])"
  by (simp add: countsAgree_def gpuTouching_snoc)

lemma countsAgree_step:
  assumes inv: "countsAgree n m pre" and n: "0 < n" and f: "gpu f"
  shows "countsAgree n
     (\<lambda>D. if D \<in> set (dataId f) \<and> m D \<noteq> Some (Num n)
          then Some (case m D of
                       None \<Rightarrow> Num 1
                     | Some (Num c) \<Rightarrow> if c = 0 then Num 1 else Num (c + 1)
                     | Some NotNumber \<Rightarrow> NotNumber)
          else m D) (pre @ [f])"
  unfolding countsAgree_def
proof
  fix D
  from inv have mD:
    "m D = (if gpuTouching D pre = 0 then None else Some (Num (min (gpuTouching D pre) n)))"
    by (simp add: countsAgree_def)
  show "(if D \<in> set (dataId f) \<and> m D \<noteq> Some (Num n)
          then Some (case m D of
                       None \<Rightarrow> Num 1
                     | Some (Num c) \<Rightarrow> if c = 0 then Num 1 else Num (c + 1)
                     | Some NotNumber \<Rightarrow> NotNumber)
          else m D) =
        (if gpuTouching D (pre @ [f]) = 0 then None
         else Some (Num (min (gpuTouching D (pre @ [f])) n)))"
    using mD n f by (auto simp: gpuTouching_snoc min_def)
qed

lemma resetLoop_nth:
  assumes "countsAgree n m pre" "0 < n"
    "\<forall>f\<in>set fs. distinct (dataId f) \<and> set (dataId f) \<inter> set objectPrototypeKeys = {}"
    "i < length fs"
  shows "resetLoop n m fs ! i =
     (if gpu (fs ! i) \<and> (\<exists>D\<in>set (dataId (fs ! i)). n \<le> gpuTouching D (pre @ take i fs))
      then (fs ! i)\<lparr>gpu := False\<rparr> else fs ! i)"
  using assms
proof (induction fs arbitrary: m pre i)
  case Nil
  then show ?case by simp
next
  case (Cons f fs)
  have dist: "distinct (dataId f)" and plain: "set (dataId f) \<inter> set objectPrototypeKeys = {}"
    and rest: "\<forall>g\<in>set fs. distinct (dataId g) \<and> set (dataId g) \<inter> set objectPrototypeKeys = {}"
    using Cons.prems(3) by simp_all
  show ?case
  proof (cases "gpu f")
    case False
    show ?thesis
    proof (cases i)
      case 0
      with False show ?thesis by simp
    next
      case (Suc k)
      with Cons.prems(4) have k: "k < length fs" by simp
      from Cons.IH [OF countsAgree_skip [OF Cons.prems(1) False] Cons.prems(2) rest k]
      show ?thesis using False Suc by simp
    qed
  next
    case True
    let ?m' = "\<lambda>D. if D \<in> set (dataId f) \<and> m D \<noteq> Some (Num n)
          then Some (case m D of
                       None \<Rightarrow> Num 1
                     | Some (Num c) \<Rightarrow> if c = 0 then Num 1 else Num (c + 1)
                     | Some NotNumber \<Rightarrow> NotNumber)
          else m D"
    have fold: "fold (resetDataset n) (dataId f) (True, m) =
        ((\<forall>D\<in>set (dataId f). m D \<noteq> Some (Num n)), ?m')"
      using fold_resetDataset [OF dist plain, of n True m] by simp
    show ?thesis
    proof (cases i)
      case 0
      have "(\<forall>D\<in>set (dataId f). m D \<noteq> Some (Num n)) \<longleftrightarrow>
            \<not> (\<exists>D\<in>set (dataId f). n \<le> gpuTouching D pre)"
        using countsAgree_full [OF Cons.prems(1) Cons.prems(2)] by simp
      with 0 True fold show ?thesis by (simp add: set_gpu_def)
    next
      case (Suc k)
      with Cons.prems(4) have k: "k < length fs" by simp
      from Cons.IH [OF countsAgree_step [OF Cons.prems(1) Cons.prems(2) True] Cons.prems(2) rest k]
      show ?thesis using True Suc fold by simp
    qed
  qed
qed

lemma countsAgree_empty: "countsAgree n Map.empty []"
  by (simp add: countsAgree_def gpuTouching_def)

text \<open>
  Claim C3, amended. Let \<open>MAX_GPU_FILTERS\<close> be positive, let no filter list a dataset
  twice in its \<open>dataId\<close>, and let no dataset id be the name of a property of
  \<^verbatim>\<open>Object.prototype\<close>. Then the filter at position \<open>i\<close> of the result of
  \<open>resetFilterGpuMode\<close> keeps \<open>gpu = true\<close> exactly when it had \<open>gpu = true\<close> and, for each
  dataset \<open>D\<close> of its \<open>dataId\<close>, fewer than \<open>MAX_GPU_FILTERS\<close> filters before it in
  collection order have \<open>gpu = true\<close> and include \<open>D\<close>: on every one of its datasets it
  is among the first \<open>MAX_GPU_FILTERS\<close> GPU filters. A GPU filter that is beyond the
  cap on one of its datasets is returned with \<open>gpu\<close> false and is otherwise unchanged;
  every other filter is returned as it is.
\<close>

theorem reset_first_max:
  assumes "0 < maxGpu"
    and "\<forall>f\<in>set filters. distinct (dataId f) \<and> set (dataId f) \<inter> set objectPrototypeKeys = {}"
    and "i < length filters"
  shows "resetFilterGpuMode maxGpu filters ! i =
       (if gpu (filters ! i) \<and>
           (\<exists>D\<in>set (dataId (filters ! i)). maxGpu \<le> gpuTouching D (take i filters))
        then (filters ! i)\<lparr>gpu := False\<rparr> else filters ! i) \<and>
     (gpu (resetFilterGpuMode maxGpu filters ! i) \<longleftrightarrow>
        gpu (filters ! i) \<and>
        (\<forall>D\<in>set (dataId (filters ! i)). gpuTouching D (take i filters) < maxGpu))"
proof -
  have eq: "resetFilterGpuMode maxGpu filters ! i =
       (if gpu (filters ! i) \<and>
           (\<exists>D\<in>set (dataId (filters ! i)). maxGpu \<le> gpuTouching D (take i filters))
        then (filters ! i)\<lparr>gpu := False\<rparr> else filters ! i)"
    unfolding resetFilterGpuMode_def
    using resetLoop_nth [OF countsAgree_empty assms] by simp
  show ?thesis
  proof (intro conjI)
    show "resetFilterGpuMode maxGpu filters ! i =
       (if gpu (filters ! i) \<and>
           (\<exists>D\<in>set (dataId (filters ! i)). maxGpu \<le> gpuTouching D (take i filters))
        then (filters ! i)\<lparr>gpu := False\<rparr> else filters ! i)" by (rule eq)
    show "gpu (resetFilterGpuMode maxGpu filters ! i) \<longleftrightarrow>
        gpu (filters ! i) \<and>
        (\<forall>D\<in>set (dataId (filters ! i)). gpuTouching D (take i filters) < maxGpu)"
      unfolding eq by (auto simp: not_less)
  qed
qed

text \<open>
  The instance of the claim: with \<open>MAX_GPU_FILTERS = 2\<close> and three GPU filters on dataset
  \<open>D\<close>, the first two keep \<open>gpu = true\<close> and the third is forced to false.
\<close>

theorem reset_first_max_witness:
  "gpu (resetFilterGpuMode 2
      [mkFilter ''A'' [''D'', ''E''] None, mkFilter ''B'' [''D''] None,
       mkFilter ''C'' [''D''] None] ! 0) \<and>
   gpu (resetFilterGpuMode 2
      [mkFilter ''A'' [''D'', ''E''] None, mkFilter ''B'' [''D''] None,
       mkFilter ''C'' [''D''] None] ! 1) \<and>
   resetFilterGpuMode 2
      [mkFilter ''A'' [''D'', ''E''] None, mkFilter ''B'' [''D''] None,
       mkFilter ''C'' [''D''] None] ! 2 = (mkFilter ''C'' [''D''] None)\<lparr>gpu := False\<rparr>"
  using
    reset_first_max [of 2 "[mkFilter ''A'' [''D'', ''E''] None, mkFilter ''B'' [''D''] None,
       mkFilter ''C'' [''D''] None]" 0]
    reset_first_max [of 2 "[mkFilter ''A'' [''D'', ''E''] None, mkFilter ''B'' [''D''] None,
       mkFilter ''C'' [''D''] None]" 1]
    reset_first_max [of 2 "[mkFilter ''A'' [''D'', ''E''] None, mkFilter ''B'' [''D''] None,
       mkFilter ''C'' [''D''] None]" 2]
  by (simp add: mkFilter_def gpuTouching_def objectPrototypeKeys_def)

text \<open>
  The claim as stated fails for a filter that lists a dataset twice: each entry of
  \<open>dataId\<close> counts, so with \<open>MAX_GPU_FILTERS = 1\<close> the only GPU filter of dataset \<open>d\<close>
  fills the cap at its first entry and overflows at its second.
\<close>

theorem reset_duplicate_dataset_counterexample:
  "gpu (mkFilter ''a'' [''d'', ''d''] None) \<and>
   gpuTouching ''d'' (take 0 [mkFilter ''a'' [''d'', ''d''] None]) < 1 \<and>
   resetFilterGpuMode 1 [mkFilter ''a'' [''d'', ''d''] None] =
     [(mkFilter ''a'' [''d'', ''d''] None)\<lparr>gpu := False\<rparr>]"
  by (simp add: resetFilterGpuMode_def resetDataset_def readCounter_def writeCounter_def
      objectPrototypeKeys_def set_gpu_def mkFilter_def gpuTouching_def Let_def)

text \<open>
  The case the amended claim leaves open: a dataset id that \<^verbatim>\<open>Object.prototype\<close> also
  has. The counter read for \<^verbatim>\<open>constructor\<close> is never a number, so the cap is never
  reached: with \<open>MAX_GPU_FILTERS = 1\<close> both GPU filters of that dataset keep
  \<open>gpu = true\<close>.
\<close>

lemma reset_inherited_key_example:
  "resetFilterGpuMode 1
     [mkFilter ''a'' [''constructor''] None, mkFilter ''b'' [''constructor''] None] =
     [mkFilter ''a'' [''constructor''] None, mkFilter ''b'' [''constructor''] None]"
  by (simp add: resetFilterGpuMode_def resetDataset_def readCounter_def writeCounter_def
      objectPrototypeKeys_def set_gpu_def mkFilter_def Let_def)

subsection \<open>The outcome of the channel allocator\<close>

lemma length_writeChan: "length (writeChan g i c) = (if i < length g then length g else Suc i)"
  by (simp add: writeChan_def)

lemma set_writeChan: "set (writeChan g i c) \<subseteq> set g \<union> {Hole, c}"
proof (cases "i < length g")
  case True
  then show ?thesis
    using set_update_subset_insert [of g i c] by (auto simp: writeChan_def)
next
  case False
  then show ?thesis by (auto simp: writeChan_def)
qed

lemma assignDataset_cases:
  "assignDataset maxGpu filters flt (idx, d) g = g \<or>
   (\<exists>i. assignDataset maxGpu filters flt (idx, d) g = writeChan g idx (Chan (int i)))"
  by (auto simp: assignDataset_def split: option.splits)

lemma length_assignDataset_ge: "length g \<le> length (assignDataset maxGpu filters flt p g)"
  using assignDataset_cases [of maxGpu filters flt "fst p" "snd p" g]
  by (auto simp: length_writeChan)

lemma length_assignDataset_le:
  "length (assignDataset maxGpu filters flt (idx, d) g) \<le> max (length g) (Suc idx)"
  using assignDataset_cases [of maxGpu filters flt idx d g]
  by (auto simp: length_writeChan)

lemma Unset_assignDataset:
  "Unset \<in> set (assignDataset maxGpu filters flt p g) \<Longrightarrow> Unset \<in> set g"
proof -
  assume u: "Unset \<in> set (assignDataset maxGpu filters flt p g)"
  from assignDataset_cases [of maxGpu filters flt "fst p" "snd p" g]
  consider "assignDataset maxGpu filters flt p g = g"
    | i where "assignDataset maxGpu filters flt p g = writeChan g (fst p) (Chan (int i))"
    by auto
  then show "Unset \<in> set g"
  proof cases
    case 1
    with u show ?thesis by simp
  next
    case (2 i)
    with u set_writeChan [of g "fst p" "Chan (int i)"] show ?thesis by auto
  qed
qed

lemma length_fold_assign_ge:
  "length g \<le> length (fold (assignDataset maxGpu filters flt) ps g)"
proof (induction ps arbitrary: g)
  case Nil
  show ?case by simp
next
  case (Cons p ps)
  have "length g \<le> length (assignDataset maxGpu filters flt p g)"
    by (rule length_assignDataset_ge)
  also have "\<dots> \<le> length (fold (assignDataset maxGpu filters flt) ps (assignDataset maxGpu filters flt p g))"
    by (rule Cons.IH)
  finally show ?case by simp
qed

lemma length_fold_assign_le:
  "length (fold (assignDataset maxGpu filters flt) (enumerate k ds) g) \<le> max (length g) (k + length ds)"
proof (induction ds arbitrary: k g)
  case Nil
  show ?case by simp
next
  case (Cons d ds)
  have "length (fold (assignDataset maxGpu filters flt) (enumerate (Suc k) ds)
          (assignDataset maxGpu filters flt (k, d) g))
        \<le> max (length (assignDataset maxGpu filters flt (k, d) g)) (Suc k + length ds)"
    by (rule Cons.IH)
  also have "\<dots> \<le> max (max (length g) (Suc k)) (Suc k + length ds)"
    using length_assignDataset_le [of maxGpu filters flt k d g] by simp
  also have "\<dots> \<le> max (length g) (k + length (d # ds))" by simp
  finally show ?case by simp
qed

lemma Unset_fold_assign:
  "Unset \<in> set (fold (assignDataset maxGpu filters flt) ps g) \<Longrightarrow> Unset \<in> set g"
proof (induction ps arbitrary: g)
  case Nil
  then show ?case by simp
next
  case (Cons p ps)
  from Cons.prems have "Unset \<in> set (assignDataset maxGpu filters flt p g)"
    using Cons.IH by simp
  then show ?case by (rule Unset_assignDataset)
qed

lemma not_everyFinite: "\<not> everyFinite c \<longleftrightarrow> c = Unset"
  by (cases c) simp_all

lemma list_all_everyFinite: "list_all everyFinite g \<longleftrightarrow> Unset \<notin> set g"
proof (induction g)
  case Nil
  show ?case by simp
next
  case (Cons a g)
  have "everyFinite a \<longleftrightarrow> Unset \<noteq> a" by (cases a) simp_all
  with Cons show ?case by simp
qed

lemma readChan_Some: "readChan g p = Some c \<longleftrightarrow> p < length g \<and> g ! p = Chan c"
  by (auto simp: readChan_def split: chan.splits)

lemma readChan_not_None: "readChan g p \<noteq> None \<longleftrightarrow> p < length g \<and> (\<exists>c. g ! p = Chan c)"
  by (auto simp: readChan_def split: chan.splits)

text \<open>
  Claim C2, amended. Let a filter with \<open>gpu = true\<close> be passed to \<open>assignGpuChannel\<close>,
  with a \<open>gpuChannel\<close> that, if present, is not longer than its \<open>dataId\<close>, and let \<open>g\<close> be
  the channel array after every entry of \<open>dataId\<close> has been processed.
  \<^item> If \<open>dataId\<close> is not empty and every position of \<open>dataId\<close> holds a finite channel in
    \<open>g\<close>, the returned filter has \<open>gpu\<close> still true and \<open>gpuChannel = g\<close>, an array with
    exactly one finite channel index for every position of \<open>dataId\<close>.
  \<^item> If \<open>g\<close> is empty (no position obtained a channel and the filter brought no entry;
    this is so whenever \<open>dataId\<close> is empty), the returned filter has \<open>gpu = false\<close> and
    its \<open>gpuChannel\<close> is absent or empty, as it was.
  \<^item> If \<open>g\<close> holds an entry that is present and not finite, the returned filter has
    \<open>gpu = false\<close>, and its \<open>gpuChannel\<close> is not cleared: it is \<open>g\<close>, the filter's own array
    with every channel written during the pass.
  \<^item> No field other than \<open>gpu\<close> and \<open>gpuChannel\<close> changes.

  Nothing is stated for a filter that ends with an unassigned position in an array
  that is not empty and holds no non-finite entry.
\<close>

theorem assignGpuChannel_outcome:
  assumes on: "gpu flt"
    and short: "length (arrayfy (gpuChannel flt)) \<le> length (dataId flt)"
  shows
    "(dataId flt \<noteq> [] \<and>
        (\<forall>p<length (dataId flt). readChan (assignPositions maxGpu filters flt) p \<noteq> None) \<longrightarrow>
        gpu (assignGpuChannel maxGpu flt filters) \<and>
        gpuChannel (assignGpuChannel maxGpu flt filters) = Some (assignPositions maxGpu filters flt) \<and>
        length (assignPositions maxGpu filters flt) = length (dataId flt) \<and>
        (\<forall>p<length (dataId flt). \<exists>c. assignPositions maxGpu filters flt ! p = Chan c)) \<and>
     (assignPositions maxGpu filters flt = [] \<longrightarrow>
        \<not> gpu (assignGpuChannel maxGpu flt filters) \<and>
        gpuChannel (assignGpuChannel maxGpu flt filters) = gpuChannel flt \<and>
        (gpuChannel flt = None \<or> gpuChannel flt = Some [])) \<and>
     (Unset \<in> set (assignPositions maxGpu filters flt) \<longrightarrow>
        \<not> gpu (assignGpuChannel maxGpu flt filters) \<and>
        gpuChannel (assignGpuChannel maxGpu flt filters) = Some (assignPositions maxGpu filters flt)) \<and>
     (dataId flt = [] \<longrightarrow> assignPositions maxGpu filters flt = []) \<and>
     (assignGpuChannel maxGpu flt filters)
        \<lparr>gpu := gpu flt, gpuChannel := gpuChannel flt\<rparr> = flt"
proof -
  let ?g = "assignPositions maxGpu filters flt"
  let ?r = "assignGpuChannel maxGpu flt filters"
  have len_le: "length ?g \<le> length (dataId flt)"
    using length_fold_assign_le [of maxGpu filters flt 0 "dataId flt" "arrayfy (gpuChannel flt)"] short
    by (simp add: assignPositions_def)
  have len_ge: "length (arrayfy (gpuChannel flt)) \<le> length ?g"
    unfolding assignPositions_def by (rule length_fold_assign_ge)
  have a: "gpu ?r \<and> gpuChannel ?r = Some ?g \<and> length ?g = length (dataId flt) \<and>
        (\<forall>p<length (dataId flt). \<exists>c. ?g ! p = Chan c)"
    if ne: "dataId flt \<noteq> []" and fin: "\<forall>p<length (dataId flt). readChan ?g p \<noteq> None"
  proof -
    from fin have all: "\<forall>p<length (dataId flt). p < length ?g \<and> (\<exists>c. ?g ! p = Chan c)"
      using readChan_not_None by blast
    from ne have "length (dataId flt) - 1 < length (dataId flt)" by simp
    with all have "length (dataId flt) - 1 < length ?g" by blast
    with len_le have len: "length ?g = length (dataId flt)" by simp
    have "Unset \<notin> set ?g"
    proof
      assume "Unset \<in> set ?g"
      then obtain p where "p < length ?g" "?g ! p = Unset" by (auto simp: in_set_conv_nth)
      with all len show False by auto
    qed
    then have ok: "list_all everyFinite ?g" by (simp add: list_all_everyFinite)
    from len ne have "?g \<noteq> []" by auto
    with ok on have "?r = flt\<lparr>gpuChannel := Some ?g\<rparr>"
      by (simp add: assignGpuChannel_def)
    with on len all show ?thesis by simp
  qed
  have b: "\<not> gpu ?r \<and> gpuChannel ?r = gpuChannel flt \<and> (gpuChannel flt = None \<or> gpuChannel flt = Some [])"
    if e: "?g = []"
  proof -
    from len_ge e have "arrayfy (gpuChannel flt) = []" by simp
    then have old: "gpuChannel flt = None \<or> gpuChannel flt = Some []"
      by (auto simp: arrayfy_def split: option.splits)
    from e on have "?r = flt\<lparr>gpu := False,
        gpuChannel := (case gpuChannel flt of None \<Rightarrow> None | Some old \<Rightarrow> Some [])\<rparr>"
      by (simp add: assignGpuChannel_def)
    with old show ?thesis by auto
  qed
  have c: "\<not> gpu ?r \<and> gpuChannel ?r = Some ?g" if u: "Unset \<in> set ?g"
  proof -
    from u have "Unset \<in> set (arrayfy (gpuChannel flt))"
      unfolding assignPositions_def by (rule Unset_fold_assign)
    then obtain old where old: "gpuChannel flt = Some old"
      by (cases "gpuChannel flt") (simp_all add: arrayfy_def)
    from u have "\<not> list_all everyFinite ?g" by (simp add: list_all_everyFinite)
    with on old show ?thesis by (simp add: assignGpuChannel_def)
  qed
  have d: "?g = []" if "dataId flt = []"
    using len_le that by simp
  have e: "?r\<lparr>gpu := gpu flt, gpuChannel := gpuChannel flt\<rparr> = flt"
    by (simp add: assignGpuChannel_def Let_def)
  from a b c d e show ?thesis by blast
qed

theorem assignGpuChannel_outcome_witness:
  "(gpu (mkFilter ''f'' [''d1'', ''d2''] (Some [Chan 0])) \<and>
    gpu (assignGpuChannel 2 (mkFilter ''f'' [''d1'', ''d2''] (Some [Chan 0]))
           [mkFilter ''g'' [''d1''] (Some [Chan 0])]) \<and>
    gpuChannel (assignGpuChannel 2 (mkFilter ''f'' [''d1'', ''d2''] (Some [Chan 0]))
           [mkFilter ''g'' [''d1''] (Some [Chan 0])]) = Some [Chan 1, Chan 0]) \<and>
   (gpu (mkFilter ''f'' [''d''] None) \<and>
    \<not> gpu (assignGpuChannel 1 (mkFilter ''f'' [''d''] None) [mkFilter ''g'' [''d''] (Some [Chan 0])]) \<and>
    gpuChannel (assignGpuChannel 1 (mkFilter ''f'' [''d''] None)
           [mkFilter ''g'' [''d''] (Some [Chan 0])]) = None) \<and>
   (gpu (mkFilter ''f'' [''d''] (Some [Unset])) \<and>
    \<not> gpu (assignGpuChannel 1 (mkFilter ''f'' [''d''] (Some [Unset]))
           [mkFilter ''g'' [''d''] (Some [Chan 0])]) \<and>
    gpuChannel (assignGpuChannel 1 (mkFilter ''f'' [''d''] (Some [Unset]))
           [mkFilter ''g'' [''d''] (Some [Chan 0])]) = Some [Unset])"
  using
    assignGpuChannel_outcome [of "mkFilter ''f'' [''d1'', ''d2''] (Some [Chan 0])" 2
      "[mkFilter ''g'' [''d1''] (Some [Chan 0])]"]
    assignGpuChannel_outcome [of "mkFilter ''f'' [''d''] None" 1
      "[mkFilter ''g'' [''d''] (Some [Chan 0])]"]
    assignGpuChannel_outcome [of "mkFilter ''f'' [''d''] (Some [Unset])" 1
      "[mkFilter ''g'' [''d''] (Some [Chan 0])]"]
  by (simp add: assignGpuChannel_def assignPositions_def assignDataset_def scanChannels.simps
      channelTaken_def findGpuChannel_def readChan_def writeChan_def arrayfy_def mkFilter_def
      enumerate_eq_zip upt_rec)

text \<open>
  The claim as stated fails where the filter brings its own array. With
  \<open>MAX_GPU_FILTERS = 1\<close>, the filter below obtains channel 0 for \<open>d1\<close> and nothing for
  \<open>d2\<close>, whose only channel another filter holds. It is returned with \<open>gpu = false\<close>,
  and its \<open>gpuChannel\<close> keeps the channel written for \<open>d1\<close>: the partial assignment is
  not discarded.
\<close>

theorem assignGpuChannel_keeps_partial_counterexample:
  "gpu (mkFilter ''f'' [''d1'', ''d2''] (Some [Unset, Unset])) \<and>
   readChan (assignPositions 1 [mkFilter ''g'' [''d2''] (Some [Chan 0])]
      (mkFilter ''f'' [''d1'', ''d2''] (Some [Unset, Unset]))) 1 = None \<and>
   \<not> gpu (assignGpuChannel 1 (mkFilter ''f'' [''d1'', ''d2''] (Some [Unset, Unset]))
      [mkFilter ''g'' [''d2''] (Some [Chan 0])]) \<and>
   gpuChannel (assignGpuChannel 1 (mkFilter ''f'' [''d1'', ''d2''] (Some [Unset, Unset]))
      [mkFilter ''g'' [''d2''] (Some [Chan 0])]) = Some [Chan 0, Unset]"
  by (simp add: assignGpuChannel_def assignPositions_def assignDataset_def scanChannels.simps
      channelTaken_def findGpuChannel_def readChan_def writeChan_def arrayfy_def mkFilter_def
      enumerate_eq_zip upt_rec)

text \<open>
  The case the amended claim leaves open. With \<open>MAX_GPU_FILTERS = 1\<close>, a filter without a
  \<open>gpuChannel\<close> obtains channel 0 for \<open>d1\<close> and nothing for \<open>d2\<close>. The array \<^verbatim>\<open>[0]\<close> is not
  empty and each of its entries is finite, so the test of line 104 passes and the
  filter is returned with \<open>gpu = true\<close> and no channel for \<open>d2\<close>.
\<close>

lemma assignGpuChannel_unassigned_position_example:
  "assignGpuChannel 1 (mkFilter ''f'' [''d1'', ''d2''] None) [mkFilter ''g'' [''d2''] (Some [Chan 0])] =
     (mkFilter ''f'' [''d1'', ''d2''] None)\<lparr>gpuChannel := Some [Chan 0]\<rparr>"
  by (simp add: assignGpuChannel_def assignPositions_def assignDataset_def scanChannels.simps
      channelTaken_def findGpuChannel_def readChan_def writeChan_def arrayfy_def mkFilter_def
      enumerate_eq_zip upt_rec)

subsection \<open>Evaluations of the batch reallocator and of the single-filter check\<close>

text \<open>
  Claim C1 (injectivity of the channels that \<open>assignGpuChannels\<close> returns) fails on the
  code. With \<open>MAX_GPU_FILTERS = 1\<close>, two GPU filters with distinct ids hold channel 0 of
  dataset \<open>d\<close>, an index within range. Neither finds a free channel, neither entry is
  replaced, and both filters are returned with \<open>gpu = true\<close> and channel 0 for \<open>d\<close>.
\<close>

theorem assignGpuChannels_shared_channel:
  "id_f (mkFilter ''a'' [''d''] (Some [Chan 0])) \<noteq> id_f (mkFilter ''b'' [''d''] (Some [Chan 0])) \<and>
   assignGpuChannels 1
     [mkFilter ''a'' [''d''] (Some [Chan 0]), mkFilter ''b'' [''d''] (Some [Chan 0])] =
     [mkFilter ''a'' [''d''] (Some [Chan 0]), mkFilter ''b'' [''d''] (Some [Chan 0])] \<and>
   gpu (mkFilter ''a'' [''d''] (Some [Chan 0])) \<and> gpu (mkFilter ''b'' [''d''] (Some [Chan 0]))"
  by (simp add: assignGpuChannels_def assignStep_def assignGpuChannel_def assignPositions_def
      assignDataset_def scanChannels.simps channelTaken_def findGpuChannel_def readChan_def
      writeChan_def arrayfy_def set_index_def mkFilter_def upt_rec enumerate_eq_zip)

text \<open>
  Claim C5 (idempotence of \<open>assignGpuChannels\<close>) fails on the code. With
  \<open>MAX_GPU_FILTERS = 1\<close>, the first pass gives \<open>x\<close> channel 0 for \<open>d3\<close> and nothing for
  \<open>d2\<close>, which \<open>y\<close> holds, and leaves \<open>x\<close> in GPU mode; it then turns \<open>y\<close> off, since \<open>y\<close>
  finds no channel for \<open>d3\<close>. The second pass finds channel 0 of \<open>d2\<close> free and extends
  the \<open>gpuChannel\<close> of \<open>x\<close>.
\<close>

theorem assignGpuChannels_second_pass_differs:
  "assignGpuChannels 1
     [mkFilter ''x'' [''d3'', ''d2''] None, mkFilter ''y'' [''d2'', ''d3''] (Some [Chan 0, Unset])] =
     [(mkFilter ''x'' [''d3'', ''d2''] None)\<lparr>gpuChannel := Some [Chan 0]\<rparr>,
      (mkFilter ''y'' [''d2'', ''d3''] (Some [Chan 0, Unset]))\<lparr>gpu := False\<rparr>] \<and>
   assignGpuChannels 1 (assignGpuChannels 1
     [mkFilter ''x'' [''d3'', ''d2''] None, mkFilter ''y'' [''d2'', ''d3''] (Some [Chan 0, Unset])]) =
     [(mkFilter ''x'' [''d3'', ''d2''] None)\<lparr>gpuChannel := Some [Chan 0, Chan 0]\<rparr>,
      (mkFilter ''y'' [''d2'', ''d3''] (Some [Chan 0, Unset]))\<lparr>gpu := False\<rparr>]"
  by code_simp

text \<open>
  Claim C4 (the single-filter check turns \<open>gpu\<close> off at a full dataset) fails on the
  code. \<open>setFilterGpuMode\<close> returns its argument whatever the collection holds: below,
  dataset \<open>d\<close> already has \<open>MAX_GPU_FILTERS = 2\<close> GPU filters, the callback computes the
  filter with \<open>gpu = false\<close>, and the filter returned still has \<open>gpu = true\<close>.
\<close>

theorem setFilterGpuMode_full_dataset:
  "gpuTouching ''d'' [mkFilter ''a'' [''d''] (Some [Chan 0]), mkFilter ''b'' [''d''] (Some [Chan 1])] = 2 \<and>
   setFilterGpuMode_callback 2 (mkFilter ''x'' [''d''] None)
     [mkFilter ''a'' [''d''] (Some [Chan 0]), mkFilter ''b'' [''d''] (Some [Chan 1])] ''d'' =
       Some ((mkFilter ''x'' [''d''] None)\<lparr>gpu := False\<rparr>) \<and>
   gpu (setFilterGpuMode 2 (mkFilter ''x'' [''d''] None)
     [mkFilter ''a'' [''d''] (Some [Chan 0]), mkFilter ''b'' [''d''] (Some [Chan 1])])"
  by (simp add: setFilterGpuMode_def setFilterGpuMode_callback_def set_gpu_def mkFilter_def
      gpuTouching_def)

lemma setFilterGpuMode_returns_input: "setFilterGpuMode maxGpu flt filters = flt"
  by (simp add: setFilterGpuMode_def)

subsection \<open>The uniform data builder\<close>

lemma getEmptyFilterRange_small:
  "maxGpu < 2 ^ 32 \<Longrightarrow> getEmptyFilterRange maxGpu = Inr (replicate maxGpu (0, 0))"
  by (simp add: getEmptyFilterRange_def map_replicate)

lemma getGpuFilterProps_ranges:
  "getEmptyFilterRange maxGpu = Inr r0 \<Longrightarrow>
   getGpuFilterProps maxGpu filters d =
     (case builderLoop maxGpu filters d 0 \<lparr>ranges = r0, triggers = Map.empty, channels = []\<rparr> of
        Inl e \<Rightarrow> Inl e
      | Inr st \<Rightarrow>
          Inr \<lparr>filterRange = ranges st,
               filterValueUpdateTriggers = triggers st,
               filterValueAccessor = getFilterValueAccessor (channels st)\<rparr>)"
  by (simp add: getGpuFilterProps_def)

lemma replicate_2: "replicate 2 x = [x, x]"
  by (simp add: numeral_eq_Suc)

lemma replicate_4: "replicate 4 x = [x, x, x, x]"
  by (simp add: numeral_eq_Suc)

lemma getEmptyFilterRange_1: "getEmptyFilterRange 1 = Inr [(0, 0)]"
  using getEmptyFilterRange_small [of 1] by simp

lemma getEmptyFilterRange_2: "getEmptyFilterRange 2 = Inr [(0, 0), (0, 0)]"
  using getEmptyFilterRange_small [of 2] by (simp add: replicate_2)

lemma getEmptyFilterRange_4: "getEmptyFilterRange 4 = Inr [(0, 0), (0, 0), (0, 0), (0, 0)]"
  using getEmptyFilterRange_small [of 4] by (simp add: replicate_4)

text \<open>
  Claim C6. For the scenario of section 8 (\<open>F1\<close> and \<open>F2\<close> on dataset \<open>d1\<close>, both with
  \<open>gpu = true\<close> and no \<open>gpuChannel\<close>, distinct ids, \<open>MAX_GPU_FILTERS = 4\<close>),
  \<open>assignGpuChannels\<close> gives \<open>F1\<close> the channel array \<^verbatim>\<open>[0]\<close> and \<open>F2\<close> the channel array
  \<^verbatim>\<open>[1]\<close> and changes nothing else, and \<open>getGpuFilterProps\<close> for \<open>d1\<close> on the result
  returns the range table \<^verbatim>\<open>[[10, 20], [5, 15], [0, 0], [0, 0]]\<close>.
\<close>

theorem scenario_allocation:
  assumes "i1 \<noteq> i2"
  shows "assignGpuChannels 4 [scenarioF1 i1 fi1 mv1 nm1, scenarioF2 i2 fi2 mv2 nm2] =
      [(scenarioF1 i1 fi1 mv1 nm1)\<lparr>gpuChannel := Some [Chan 0]\<rparr>,
       (scenarioF2 i2 fi2 mv2 nm2)\<lparr>gpuChannel := Some [Chan 1]\<rparr>] \<and>
    map_sum id filterRange
      (getGpuFilterProps 4
         (assignGpuChannels 4 [scenarioF1 i1 fi1 mv1 nm1, scenarioF2 i2 fi2 mv2 nm2]) ''d1'') =
      Inr [(10, 20), (5, 15), (0, 0), (0, 0)]"
proof -
  have a: "assignGpuChannels 4 [scenarioF1 i1 fi1 mv1 nm1, scenarioF2 i2 fi2 mv2 nm2] =
      [(scenarioF1 i1 fi1 mv1 nm1)\<lparr>gpuChannel := Some [Chan 0]\<rparr>,
       (scenarioF2 i2 fi2 mv2 nm2)\<lparr>gpuChannel := Some [Chan 1]\<rparr>]"
    using assms
    by (simp add: assignGpuChannels_def assignStep_def assignGpuChannel_def assignPositions_def
      assignDataset_def scanChannels.simps channelTaken_def findGpuChannel_def readChan_def
      writeChan_def arrayfy_def set_index_def scenarioF1_def scenarioF2_def upt_rec enumerate_eq_zip)
  have b: "map_sum id filterRange
      (getGpuFilterProps 4
         [(scenarioF1 i1 fi1 mv1 nm1)\<lparr>gpuChannel := Some [Chan 0]\<rparr>,
       (scenarioF2 i2 fi2 mv2 nm2)\<lparr>gpuChannel := Some [Chan 1]\<rparr>] ''d1'') =
      Inr [(10, 20), (5, 15), (0, 0), (0, 0)]"
    unfolding getGpuFilterProps_ranges [OF getEmptyFilterRange_4]
    by (simp add: builderLoop.simps builderStep_def readChan_def scenarioF1_def scenarioF2_def
        eval_nat_numeral)
  from a b show ?thesis by simp
qed

theorem scenario_allocation_witness:
  "''F1'' \<noteq> ''F2'' \<and>
   assignGpuChannels 4
     [scenarioF1 ''F1'' 0 None [''price''], scenarioF2 ''F2'' 1 (Some [Some 7, None]) [''size'']] =
     [(scenarioF1 ''F1'' 0 None [''price''])\<lparr>gpuChannel := Some [Chan 0]\<rparr>,
      (scenarioF2 ''F2'' 1 (Some [Some 7, None]) [''size''])\<lparr>gpuChannel := Some [Chan 1]\<rparr>] \<and>
   map_sum id filterRange
     (getGpuFilterProps 4
        (assignGpuChannels 4
          [scenarioF1 ''F1'' 0 None [''price''], scenarioF2 ''F2'' 1 (Some [Some 7, None]) [''size'']])
        ''d1'') =
     Inr [(10, 20), (5, 15), (0, 0), (0, 0)]"
  using scenario_allocation [of "''F1''" "''F2''" 0 None "[''price'']" 1 "Some [Some 7, None]" "[''size'']"]
  by simp

text \<open>
  The channels that the loop of \<open>getGpuFilterProps\<close> collects, and the accessor built
  from them.
\<close>

lemma builderLoop_channels:
  "builderLoop maxGpu filters d i st = Inr st' \<Longrightarrow>
     channels st' = channels st @ map (channelAt filters d) [i..<maxGpu]"
proof (induction maxGpu filters d i st rule: builderLoop.induct)
  case (1 maxGpu filters d i st)
  show ?case
  proof (cases "i < maxGpu")
    case False
    with "1.prems" show ?thesis by (simp add: builderLoop.simps)
  next
    case True
    show ?thesis
    proof (cases "findChannelFilter filters d (int i)")
      case (Inl e)
      with True "1.prems" show ?thesis by (simp add: builderLoop.simps)
    next
      case (Inr found)
      with True "1.prems"
      have run: "builderLoop maxGpu filters d (Suc i) (builderStep d i found st) = Inr st'"
        by (simp add: builderLoop.simps)
      from "1.IH" [OF True Inr run]
      have "channels st' = (channels st @ [found]) @ map (channelAt filters d) [Suc i..<maxGpu]"
        by (simp add: builderStep_def)
      moreover have "channelAt filters d i = found" using Inr by (simp add: channelAt_def)
      ultimately show ?thesis using True by (simp add: upt_conv_Cons)
    qed
  qed
qed

lemma getGpuFilterProps_accessor:
  assumes "getGpuFilterProps maxGpu filters d = Inr p"
  shows "filterValueAccessor p getIndex getData row =
     mapRaising (channelValue getIndex getData row) (map (channelAt filters d) [0..<maxGpu])"
proof -
  from assms obtain r0 st where
    run: "builderLoop maxGpu filters d 0 \<lparr>ranges = r0, triggers = Map.empty, channels = []\<rparr> = Inr st"
    and p: "p = \<lparr>filterRange = ranges st, filterValueUpdateTriggers = triggers st,
               filterValueAccessor = getFilterValueAccessor (channels st)\<rparr>"
    by (auto simp: getGpuFilterProps_def split: sum.splits)
  from builderLoop_channels [OF run] have "channels st = map (channelAt filters d) [0..<maxGpu]"
    by simp
  with p show ?thesis by (simp add: getFilterValueAccessor_def)
qed

lemma mapRaising_Inr:
  "(\<forall>x\<in>set xs. \<exists>y. f x = Inr y) \<Longrightarrow> mapRaising f xs = Inr (map (\<lambda>x. projr (f x)) xs)"
  by (induction xs) auto

lemma channelAt_Some:
  "channelAt filters d j = Some f \<Longrightarrow> findChannelFilter filters d (int j) = Inr (Some f)"
  by (simp add: channelAt_def split: sum.splits)

lemma channelValue_Some:
  "channelValue getIndex getData row (Some flt) =
     (case mappedValue flt of
        Some mv \<Rightarrow>
          Inr (case (case getIndex row of None \<Rightarrow> None | Some k \<Rightarrow> readVal mv k) of
                 None \<Rightarrow> MIN_SAFE_INTEGER
               | Some v \<Rightarrow> v - fst (domain flt))
      | None \<Rightarrow>
          (case getData row of
             None \<Rightarrow> Inl TypeError
           | Some rowData \<Rightarrow>
               Inr (case readVal rowData (fieldIdx flt) of
                      None \<Rightarrow> MIN_SAFE_INTEGER
                    | Some v \<Rightarrow> v - fst (domain flt))))"
  by (simp add: channelValue_def rowValue_def notNullorUndefined_def split: option.splits)

lemma MIN_SAFE_INTEGER_int: "(MIN_SAFE_INTEGER :: int) = - 9007199254740991"
  by (simp add: MIN_SAFE_INTEGER_def)

text \<open>
  Claim C9, amended. Let \<open>getGpuFilterProps\<close> return, let channel \<open>i\<close> be occupied by the
  filter \<open>flt\<close>, and let the row be readable: its data reader returns an array, or every
  occupied channel has a filter with \<open>mappedValue\<close>. Then, for every pair of readers,
  the accessor returns (it raises no error) one value per channel, and its value for
  channel \<open>i\<close> is determined by the row's value for \<open>flt\<close> (read from \<open>mappedValue\<close> at the
  row's index when \<open>flt\<close> has one, else from the row's data at \<open>fieldIdx\<close>):
  \<^verbatim>\<open>Number.MIN_SAFE_INTEGER\<close> when that value is null or undefined, whatever the
  domain; the value minus the minimum of the domain otherwise, as the subtraction of
  the number type computes it.
\<close>

theorem accessor_occupied_channel:
  assumes ret: "getGpuFilterProps maxGpu filters d = Inr p"
    and i: "i < maxGpu"
    and occ: "findChannelFilter filters d (int i) = Inr (Some flt)"
    and readable: "getData row \<noteq> None \<or>
      (\<forall>j<maxGpu. \<forall>f. findChannelFilter filters d (int j) = Inr (Some f) \<longrightarrow> mappedValue f \<noteq> None)"
  shows "\<exists>vs. filterValueAccessor p getIndex getData row = Inr vs \<and>
     length vs = maxGpu \<and>
     vs ! i =
       (case (case mappedValue flt of
                Some mv \<Rightarrow> (case getIndex row of None \<Rightarrow> None | Some k \<Rightarrow> readVal mv k)
              | None \<Rightarrow>
                  (case getData row of
                     None \<Rightarrow> None
                   | Some rowData \<Rightarrow> readVal rowData (fieldIdx flt))) of
          None \<Rightarrow> MIN_SAFE_INTEGER
        | Some v \<Rightarrow> v - fst (domain flt))"
proof -
  let ?cv = "channelValue getIndex getData row"
  let ?chs = "map (channelAt filters d) [0..<maxGpu]"
  have returns: "\<exists>y. ?cv ch = Inr y" if "ch \<in> set ?chs" for ch
  proof (cases ch)
    case None
    then show ?thesis by (simp add: channelValue_def)
  next
    case (Some f)
    from that obtain j where j: "j < maxGpu" and "ch = channelAt filters d j" by auto
    with Some have f: "findChannelFilter filters d (int j) = Inr (Some f)"
      by (simp add: channelAt_Some)
    from readable j f have "getData row \<noteq> None \<or> mappedValue f \<noteq> None" by blast
    then show ?thesis
      unfolding Some channelValue_Some by (auto split: option.splits)
  qed
  then have "mapRaising ?cv ?chs = Inr (map (\<lambda>x. projr (?cv x)) ?chs)"
    by (intro mapRaising_Inr) blast
  then have acc: "filterValueAccessor p getIndex getData row = Inr (map (\<lambda>x. projr (?cv x)) ?chs)"
    by (simp add: getGpuFilterProps_accessor [OF ret])
  have at: "channelAt filters d i = Some flt"
    using occ by (simp add: channelAt_def)
  from readable i occ have r: "getData row \<noteq> None \<or> mappedValue flt \<noteq> None" by blast
  have "map (\<lambda>x. projr (?cv x)) ?chs ! i = projr (?cv (Some flt))"
    using i at by simp
  also have "\<dots> =
       (case (case mappedValue flt of
                Some mv \<Rightarrow> (case getIndex row of None \<Rightarrow> None | Some k \<Rightarrow> readVal mv k)
              | None \<Rightarrow>
                  (case getData row of
                     None \<Rightarrow> None
                   | Some rowData \<Rightarrow> readVal rowData (fieldIdx flt))) of
          None \<Rightarrow> MIN_SAFE_INTEGER
        | Some v \<Rightarrow> v - fst (domain flt))"
    using r unfolding channelValue_Some by (auto split: option.splits)
  finally show ?thesis using acc by simp
qed

theorem accessor_occupied_channel_witness:
  "map_sum id
     (\<lambda>p. filterValueAccessor p defaultGetIndex defaultGetData
            \<lparr>index = Some 0, data = Some [Some 5, None]\<rparr>)
     (getGpuFilterProps 2
        [(mkFilter ''a'' [''d''] (Some [Chan 0]))\<lparr>domain := (3, 50), mappedValue := Some [Some 10]\<rparr>,
         (mkFilter ''b'' [''d''] (Some [Chan 1]))\<lparr>domain := (4, 9), fieldIdx := 1\<rparr>] ''d'') =
   Inr (Inr [7, - 9007199254740991])"
proof -
  let ?a = "(mkFilter ''a'' [''d''] (Some [Chan 0]))\<lparr>domain := (3, 50), mappedValue := Some [Some 10]\<rparr>"
  let ?b = "(mkFilter ''b'' [''d''] (Some [Chan 1]))\<lparr>domain := (4, 9), fieldIdx := 1\<rparr>"
  let ?row = "\<lparr>index = Some 0, data = Some [Some 5, None]\<rparr> :: int datum"
  let ?p = "projr (getGpuFilterProps 2 [?a, ?b] ''d'') :: (int datum, int) gpuFilterProps"
  have ok: "getGpuFilterProps 2 [?a, ?b] ''d'' = Inr ?p"
    unfolding getGpuFilterProps_ranges [OF getEmptyFilterRange_2]
    by (simp add: builderLoop.simps readChan_def mkFilter_def eval_nat_numeral)
  have f0: "findChannelFilter [?a, ?b] ''d'' (int 0) = Inr (Some ?a)"
    by (simp add: readChan_def mkFilter_def)
  have f1: "findChannelFilter [?a, ?b] ''d'' (int 1) = Inr (Some ?b)"
    by (simp add: readChan_def mkFilter_def)
  have rd: "defaultGetData ?row \<noteq> None \<or>
      (\<forall>j<2. \<forall>f. findChannelFilter [?a, ?b] ''d'' (int j) = Inr (Some f) \<longrightarrow> mappedValue f \<noteq> None)"
    by (simp add: defaultGetData_def)
  from accessor_occupied_channel
    [where getData = defaultGetData and row = ?row and getIndex = defaultGetIndex, OF ok _ f0 rd]
  obtain vs where acc: "filterValueAccessor ?p defaultGetIndex defaultGetData ?row = Inr vs"
    and len: "length vs = 2" and x0: "vs ! 0 = 7"
    by (auto simp: mkFilter_def readVal_def defaultGetIndex_def defaultGetData_def)
  from accessor_occupied_channel
    [where getData = defaultGetData and row = ?row and getIndex = defaultGetIndex, OF ok _ f1 rd] acc
  have x1: "vs ! 1 = - 9007199254740991"
    by (auto simp: mkFilter_def readVal_def defaultGetIndex_def defaultGetData_def
        MIN_SAFE_INTEGER_int)
  have "vs = [7, - 9007199254740991]"
    using len x0 x1 by (simp add: list_eq_iff_nth_eq less_Suc_eq_0_disj numeral_2_eq_2)
  with acc have m: "map_sum id (\<lambda>p. filterValueAccessor p defaultGetIndex defaultGetData ?row) (Inr ?p) =
      Inr (Inr [7, - 9007199254740991])" by simp
  show ?thesis by (subst ok) (rule m)
qed

text \<open>
  The claim as stated fails for a row that cannot be read: when the data reader returns
  \<^verbatim>\<open>undefined\<close> (here a datum without \<open>data\<close>) and the filter of an occupied channel has
  no \<open>mappedValue\<close>, line 176 indexes \<^verbatim>\<open>undefined\<close> and the accessor raises a
  \<^verbatim>\<open>TypeError\<close> instead of returning the sentinel.
\<close>

theorem accessor_unreadable_row_counterexample:
  "map_sum id
     (\<lambda>p. filterValueAccessor p defaultGetIndex defaultGetData \<lparr>index = Some 0, data = None\<rparr>)
     (getGpuFilterProps 1 [mkFilter ''a'' [''d''] (Some [Chan 0])] ''d'') =
   Inr (Inl TypeError)"
  unfolding getGpuFilterProps_ranges [OF getEmptyFilterRange_1]
  by (simp add: builderLoop.simps builderStep_def getFilterValueAccessor_def channelValue_def
      rowValue_def readChan_def mkFilter_def defaultGetData_def)

text \<open>The keys of the update triggers are decimal numerals after \<^verbatim>\<open>gpuFilter_\<close>.\<close>

lemma digit_cases:
  "k < 10 \<Longrightarrow>
     k = 0 \<or> k = 1 \<or> k = 2 \<or> k = 3 \<or> k = 4 \<or> k = 5 \<or> k = 6 \<or> k = 7 \<or> k = 8 \<or> k = (9::nat)"
  by arith

lemma digitValue_digit: "digitValue (digit n) = n mod 10"
proof -
  have "n mod 10 < 10" by simp
  from digit_cases [OF this] show ?thesis
    by (auto simp: digit_def digitValue_def)
qed

lemma isDigit_digit: "isDigit (digit n)"
proof -
  have "n mod 10 < 10" by simp
  from digit_cases [OF this] show ?thesis
    by (auto simp: digit_def isDigit_def)
qed

lemma digit_zero: "digit n = CHR ''0'' \<longleftrightarrow> n mod 10 = 0"
proof -
  have "n mod 10 < 10" by simp
  from digit_cases [OF this] show ?thesis
    by (auto simp: digit_def)
qed

lemma decimalValue_snoc: "decimalValue (ds @ [c]) = 10 * decimalValue ds + digitValue c"
  by (simp add: decimalValue_def)

lemma decimalValue_string_of_nat: "decimalValue (string_of_nat n) = n"
proof (induction n rule: string_of_nat.induct)
  case (1 n)
  show ?case
  proof (cases "n < 10")
    case True
    then show ?thesis
      by (simp add: string_of_nat.simps [of n] decimalValue_def digitValue_digit)
  next
    case False
    with "1.IH" have "decimalValue (string_of_nat (n div 10)) = n div 10" by simp
    with False show ?thesis
      by (simp add: string_of_nat.simps [of n] decimalValue_snoc digitValue_digit)
  qed
qed

lemma string_of_nat_nonempty: "string_of_nat n \<noteq> []"
  by (simp add: string_of_nat.simps [of n])

lemma digits_string_of_nat: "list_all isDigit (string_of_nat n)"
proof (induction n rule: string_of_nat.induct)
  case (1 n)
  then show ?case
    by (cases "n < 10") (simp_all add: string_of_nat.simps [of n] isDigit_digit)
qed

lemma hd_string_of_nat: "0 < n \<Longrightarrow> hd (string_of_nat n) \<noteq> CHR ''0''"
proof (induction n rule: string_of_nat.induct)
  case (1 n)
  show ?case
  proof (cases "n < 10")
    case True
    with "1.prems" have "n mod 10 \<noteq> 0" by simp
    with True show ?thesis
      by (simp add: string_of_nat.simps [of n] digit_zero)
  next
    case False
    then have "0 < n div 10" by simp
    with False "1.IH" have "hd (string_of_nat (n div 10)) \<noteq> CHR ''0''" by simp
    with False show ?thesis
      by (simp add: string_of_nat.simps [of n] string_of_nat_nonempty)
  qed
qed

lemma string_of_nat_zero: "string_of_nat 0 = ''0''"
  by (simp add: string_of_nat.simps [of 0] digit_def)

lemma isDecimalOf_string_of_nat: "isDecimalOf (string_of_nat n) n"
proof (cases "n = 0")
  case True
  then show ?thesis
    using decimalValue_string_of_nat [of 0]
    by (simp add: isDecimalOf_def string_of_nat_zero isDigit_def)
next
  case False
  then show ?thesis
    by (simp add: isDecimalOf_def string_of_nat_nonempty digits_string_of_nat
        hd_string_of_nat decimalValue_string_of_nat)
qed

lemma inj_string_of_nat: "inj string_of_nat"
  by (rule inj_on_inverseI [where g = decimalValue]) (rule decimalValue_string_of_nat)

lemma inj_triggerKey: "inj triggerKey"
  using inj_string_of_nat by (auto simp: inj_def triggerKey_def)

lemma isDigit_cases:
  "isDigit c \<Longrightarrow> c = CHR ''0'' \<or> c = CHR ''1'' \<or> c = CHR ''2'' \<or> c = CHR ''3'' \<or> c = CHR ''4'' \<or>
     c = CHR ''5'' \<or> c = CHR ''6'' \<or> c = CHR ''7'' \<or> c = CHR ''8'' \<or> c = CHR ''9''"
  by (auto simp: isDigit_def)

lemma digit_digitValue: "isDigit c \<Longrightarrow> digit (digitValue c) = c \<and> digitValue c < 10"
  by (drule isDigit_cases) (auto simp: digit_def digitValue_def)

lemma digit_mod: "digit (n mod 10) = digit n"
  by (simp add: digit_def)

lemma foldl_decimal_ge: "a \<le> foldl (\<lambda>acc c. 10 * acc + digitValue c) a ds"
proof (induction ds arbitrary: a)
  case Nil
  show ?case by simp
next
  case (Cons d ds)
  have "a \<le> 10 * a + digitValue d" by simp
  also have "\<dots> \<le> foldl (\<lambda>acc c. 10 * acc + digitValue c) (10 * a + digitValue d) ds"
    by (rule Cons.IH)
  finally show ?case by simp
qed

lemma decimalValue_pos:
  assumes "ds \<noteq> []" "isDigit (hd ds)" "hd ds \<noteq> CHR ''0''"
  shows "0 < decimalValue ds"
proof -
  from assms(1) obtain d rest where ds: "ds = d # rest" by (cases ds) auto
  with assms have "isDigit d" "d \<noteq> CHR ''0''" by simp_all
  then have "0 < digitValue d"
    by (auto dest!: isDigit_cases simp: digitValue_def)
  also have "digitValue d \<le> decimalValue ds"
    using foldl_decimal_ge [of "digitValue d" rest] by (simp add: ds decimalValue_def)
  finally show ?thesis .
qed

lemma isDecimalOf_unique: "isDecimalOf ds i \<Longrightarrow> ds = string_of_nat i"
proof (induction ds arbitrary: i rule: rev_induct)
  case Nil
  then show ?case by (simp add: isDecimalOf_def)
next
  case (snoc c xs)
  from snoc.prems have dig: "isDigit c" and digs: "list_all isDigit xs"
    and val: "10 * decimalValue xs + digitValue c = i"
    and lead: "xs @ [c] = ''0'' \<or> hd (xs @ [c]) \<noteq> CHR ''0''"
    by (simp_all add: isDecimalOf_def decimalValue_snoc)
  from digit_digitValue [OF dig] have c: "digit (digitValue c) = c" and lt: "digitValue c < 10"
    by simp_all
  from val lt have m: "i mod 10 = digitValue c" and dv: "i div 10 = decimalValue xs" by auto
  from c m have ci: "digit i = c" using digit_mod [of i] by simp
  show ?case
  proof (cases "xs = []")
    case True
    with val lt have "i < 10" by (simp add: decimalValue_def)
    with True ci show ?thesis by (simp add: string_of_nat.simps [of i])
  next
    case False
    with lead have h: "hd xs \<noteq> CHR ''0''" by (cases xs) auto
    from False digs have hdig: "isDigit (hd xs)" by (cases xs) auto
    from decimalValue_pos [OF False hdig h] dv have big: "\<not> i < 10" by simp
    from False digs h dv have "isDecimalOf xs (i div 10)" by (simp add: isDecimalOf_def)
    then have "xs = string_of_nat (i div 10)" by (rule snoc.IH)
    with big ci show ?thesis by (simp add: string_of_nat.simps [of i])
  qed
qed

lemma triggerKey_image:
  "k \<in> triggerKey ` {0..<maxGpu} \<longleftrightarrow>
     (\<exists>i<maxGpu. \<exists>ds. isDecimalOf ds i \<and> k = ''gpuFilter_'' @ ds)"
proof
  assume "k \<in> triggerKey ` {0..<maxGpu}"
  then obtain i where "i < maxGpu" "k = ''gpuFilter_'' @ string_of_nat i"
    by (auto simp: triggerKey_def)
  with isDecimalOf_string_of_nat [of i]
  show "\<exists>i<maxGpu. \<exists>ds. isDecimalOf ds i \<and> k = ''gpuFilter_'' @ ds" by blast
next
  assume "\<exists>i<maxGpu. \<exists>ds. isDecimalOf ds i \<and> k = ''gpuFilter_'' @ ds"
  then obtain i ds where i: "i < maxGpu" and ds: "isDecimalOf ds i" and k: "k = ''gpuFilter_'' @ ds"
    by blast
  from isDecimalOf_unique [OF ds] k have "k = triggerKey i" by (simp add: triggerKey_def)
  with i show "k \<in> triggerKey ` {0..<maxGpu}" by simp
qed

text \<open>The builder on the empty collection.\<close>

lemma list_update_replicate_same: "(replicate n x)[j := x] = replicate n x"
  by (cases "j < n") (simp_all add: list_update_same_conv list_update_beyond)

lemma builderLoop_Nil:
  "\<exists>st'. builderLoop maxGpu [] d i st = Inr st' \<and>
      channels st' = channels st @ replicate (maxGpu - i) None \<and>
      triggers st' = (\<lambda>k. if k \<in> triggerKey ` {i..<maxGpu} then Some TNull else triggers st k) \<and>
      (ranges st = replicate n (0, 0) \<longrightarrow> ranges st' = replicate n (0, 0))"
proof (induction "maxGpu - i" arbitrary: i st)
  case 0
  then have "\<not> i < maxGpu" by simp
  then show ?case by (simp add: builderLoop.simps)
next
  case (Suc m)
  then have lt: "i < maxGpu" and m: "m = maxGpu - Suc i" by simp_all
  let ?st = "builderStep d i None st"
  from Suc.hyps(1) [OF m, of ?st] obtain st' where
    run: "builderLoop maxGpu [] d (Suc i) ?st = Inr st'"
    and ch: "channels st' = channels ?st @ replicate (maxGpu - Suc i) None"
    and tr: "triggers st' = (\<lambda>k. if k \<in> triggerKey ` {Suc i..<maxGpu} then Some TNull else triggers ?st k)"
    and ra: "ranges ?st = replicate n (0, 0) \<longrightarrow> ranges st' = replicate n (0, 0)"
    by blast
  have "builderLoop maxGpu [] d i st = Inr st'"
    using lt run by (simp add: builderLoop.simps [of maxGpu "[]" d i st])
  moreover have "channels st' = channels st @ replicate (maxGpu - i) None"
  proof -
    from lt have "maxGpu - i = Suc (maxGpu - Suc i)" by simp
    then show ?thesis using ch by (simp add: builderStep_def replicate_append_same)
  qed
  moreover have "triggers st' = (\<lambda>k. if k \<in> triggerKey ` {i..<maxGpu} then Some TNull else triggers st k)"
  proof -
    from lt have "{i..<maxGpu} = insert i {Suc i..<maxGpu}" by auto
    then show ?thesis using tr by (auto simp: builderStep_def fun_eq_iff)
  qed
  moreover have "ranges st = replicate n (0, 0) \<longrightarrow> ranges st' = replicate n (0, 0)"
    using ra by (simp add: builderStep_def list_update_replicate_same)
  ultimately show ?case by blast
qed

lemma mapRaising_empty_channels:
  "mapRaising (channelValue getIndex getData row) (replicate n None) = Inr (replicate n 0)"
  by (induction n) (simp_all add: channelValue_def)

text \<open>
  Claim C8. Let \<open>MAX_GPU_FILTERS\<close> be below \<open>2^32\<close>, the longest array JavaScript makes.
  For the empty collection and any dataset id, \<open>getGpuFilterProps\<close> returns (it does not
  raise). The range table is \<open>MAX_GPU_FILTERS\<close> entries \<^verbatim>\<open>[0, 0]\<close>. The update triggers
  have, for every \<open>i\<close> below \<open>MAX_GPU_FILTERS\<close>, the key that is \<^verbatim>\<open>gpuFilter_\<close> followed by
  the decimal numeral of \<open>i\<close>, mapped to \<^verbatim>\<open>null\<close>; they have \<open>MAX_GPU_FILTERS\<close> keys in
  all, so these keys are distinct and there is no other, and no key is mapped to
  anything but \<^verbatim>\<open>null\<close>: a key is present, and then mapped to \<^verbatim>\<open>null\<close>, exactly when it
  is \<^verbatim>\<open>gpuFilter_\<close> followed by the decimal numeral of a number below
  \<open>MAX_GPU_FILTERS\<close>. The accessor returns \<open>MAX_GPU_FILTERS\<close> zeros for every row and
  every pair of readers, and raises for none.
\<close>

theorem empty_collection_props:
  assumes "maxGpu < 2 ^ 32"
  shows "\<exists>p :: ('r, 'n::{zero, plus, minus, uminus, power}) gpuFilterProps.
      getGpuFilterProps maxGpu [] d = Inr p \<and>
      filterRange p = replicate maxGpu (0, 0) \<and>
      (\<forall>i<maxGpu. \<exists>ds. isDecimalOf ds i \<and>
         filterValueUpdateTriggers p (''gpuFilter_'' @ ds) = Some TNull) \<and>
      card (dom (filterValueUpdateTriggers p)) = maxGpu \<and>
      (\<forall>k. filterValueUpdateTriggers p k = None \<or> filterValueUpdateTriggers p k = Some TNull) \<and>
      (\<forall>k. filterValueUpdateTriggers p k =
         (if \<exists>i<maxGpu. \<exists>ds. isDecimalOf ds i \<and> k = ''gpuFilter_'' @ ds
          then Some TNull else None)) \<and>
      (\<forall>getIndex getData row.
         filterValueAccessor p getIndex getData row = Inr (replicate maxGpu 0))"
proof -
  let ?st0 = "\<lparr>ranges = replicate maxGpu (0 :: 'n, 0 :: 'n), triggers = Map.empty, channels = []\<rparr>"
  have "\<exists>st'. builderLoop maxGpu [] d 0 ?st0 = Inr st' \<and>
      channels st' = replicate maxGpu None \<and>
      triggers st' = (\<lambda>k. if k \<in> triggerKey ` {0..<maxGpu} then Some TNull else None) \<and>
      ranges st' = replicate maxGpu (0, 0)"
    using builderLoop_Nil [of maxGpu d 0 ?st0 maxGpu]
    by (simp cong: if_cong)
  then obtain st' where
    run: "builderLoop maxGpu [] d 0 ?st0 = Inr st'"
    and ch: "channels st' = replicate maxGpu None"
    and tr: "triggers st' = (\<lambda>k. if k \<in> triggerKey ` {0..<maxGpu} then Some TNull else None)"
    and ra: "ranges st' = replicate maxGpu (0, 0)"
    by blast
  let ?p = "\<lparr>filterRange = ranges st', filterValueUpdateTriggers = triggers st',
             filterValueAccessor = getFilterValueAccessor (channels st')\<rparr> :: ('r, 'n) gpuFilterProps"
  have "getGpuFilterProps maxGpu [] d = Inr ?p"
    using run by (simp add: getGpuFilterProps_def getEmptyFilterRange_small [OF assms])
  moreover have "filterRange ?p = replicate maxGpu (0, 0)" using ra by simp
  moreover have "\<forall>i<maxGpu. \<exists>ds. isDecimalOf ds i \<and>
         filterValueUpdateTriggers ?p (''gpuFilter_'' @ ds) = Some TNull"
  proof (intro allI impI)
    fix i
    assume "i < maxGpu"
    then have "triggers st' (''gpuFilter_'' @ string_of_nat i) = Some TNull"
      unfolding tr triggerKey_def [symmetric] by simp
    with isDecimalOf_string_of_nat [of i]
    show "\<exists>ds. isDecimalOf ds i \<and> filterValueUpdateTriggers ?p (''gpuFilter_'' @ ds) = Some TNull"
      by auto
  qed
  moreover have "card (dom (filterValueUpdateTriggers ?p)) = maxGpu"
  proof -
    have "dom (triggers st') = triggerKey ` {0..<maxGpu}"
      unfolding tr by (auto simp: dom_def)
    moreover have "card (triggerKey ` {0..<maxGpu}) = card {0..<maxGpu}"
      by (rule card_image) (rule inj_on_subset [OF inj_triggerKey], simp)
    ultimately show ?thesis by simp
  qed
  moreover have "\<forall>k. filterValueUpdateTriggers ?p k = None \<or>
      filterValueUpdateTriggers ?p k = Some TNull"
    unfolding tr by simp
  moreover have "\<forall>k. filterValueUpdateTriggers ?p k =
         (if \<exists>i<maxGpu. \<exists>ds. isDecimalOf ds i \<and> k = ''gpuFilter_'' @ ds
          then Some TNull else None)"
    unfolding tr by (simp add: triggerKey_image)
  moreover have "\<forall>getIndex getData row.
      filterValueAccessor ?p getIndex getData row = Inr (replicate maxGpu 0)"
    using ch by (simp add: getFilterValueAccessor_def mapRaising_empty_channels)
  ultimately show ?thesis by blast
qed

lemma triggerKey_small:
  "triggerKey 0 = ''gpuFilter_0''" "triggerKey (Suc 0) = ''gpuFilter_1''"
  "triggerKey (Suc (Suc 0)) = ''gpuFilter_2''" "triggerKey (Suc (Suc (Suc 0))) = ''gpuFilter_3''"
  by code_simp+

theorem empty_collection_props_witness:
  "map_sum id
     (\<lambda>p. (filterRange p,
           map (filterValueUpdateTriggers p)
             [''gpuFilter_0'', ''gpuFilter_1'', ''gpuFilter_2'', ''gpuFilter_3'', ''gpuFilter_4'',
              ''gpuFilter_'', ''constructor''],
           filterValueAccessor p defaultGetIndex defaultGetData \<lparr>index = None, data = None\<rparr>))
     (getGpuFilterProps 4 [] ''d1'' :: error + (int datum, int) gpuFilterProps) =
   Inr ([(0, 0), (0, 0), (0, 0), (0, 0)],
        [Some TNull, Some TNull, Some TNull, Some TNull, None, None, None],
        Inr [0, 0, 0, 0])"
proof -
  have small: "(4::nat) < 2 ^ 32" by simp
  from empty_collection_props [where 'r = "int datum" and 'n = int, OF small, of "''d1''"]
  obtain p :: "(int datum, int) gpuFilterProps" where
    p: "getGpuFilterProps 4 [] ''d1'' = Inr p"
    and r: "filterRange p = replicate 4 (0, 0)"
    and a: "\<forall>getIndex getData row. filterValueAccessor p getIndex getData row = Inr (replicate 4 0)"
    by blast
  have keys: "map_sum id (\<lambda>p. map (filterValueUpdateTriggers p)
             [''gpuFilter_0'', ''gpuFilter_1'', ''gpuFilter_2'', ''gpuFilter_3'', ''gpuFilter_4'',
              ''gpuFilter_'', ''constructor''])
      (getGpuFilterProps 4 [] ''d1'' :: error + (int datum, int) gpuFilterProps) =
      Inr [Some TNull, Some TNull, Some TNull, Some TNull, None, None, None]"
    unfolding getGpuFilterProps_ranges [OF getEmptyFilterRange_4]
    by (simp add: builderLoop.simps builderStep_def triggerKey_small)
  from r have "filterRange p = [(0, 0), (0, 0), (0, 0), (0, 0)]"
    by (simp add: replicate_4)
  moreover from keys have "map (filterValueUpdateTriggers p)
             [''gpuFilter_0'', ''gpuFilter_1'', ''gpuFilter_2'', ''gpuFilter_3'', ''gpuFilter_4'',
              ''gpuFilter_'', ''constructor''] =
      [Some TNull, Some TNull, Some TNull, Some TNull, None, None, None]"
    unfolding p by simp
  moreover from a have
    "filterValueAccessor p defaultGetIndex defaultGetData \<lparr>index = None, data = None\<rparr> =
       Inr [0, 0, 0, 0]"
    by (simp add: replicate_4)
  ultimately show ?thesis unfolding p by simp
qed

end
